theory Spec2Isabelle
  imports Complex_Main
begin

section \<open>Numbers and small helpers\<close>

text \<open>
  JavaScript numbers are modelled as reals: comparisons, \<open>Math.min\<close>, \<open>Math.max\<close>,
  \<open>Math.floor\<close> and \<open>Math.round\<close> are exact on doubles, and the properties below are
  about which branch is taken and which bound is applied, not about rounding.
\<close>

text \<open>\<^verbatim>\<open>const clamp = (min, max, v) => { if (v > max) return max; if (v < min) return min; return v; }\<close>\<close>

definition clamp :: "real \<Rightarrow> real \<Rightarrow> real \<Rightarrow> real" where
  "clamp mn mx v = (if v > mx then mx else if v < mn then mn else v)"

text \<open>\<^verbatim>\<open>return frameDuration ? velocity * (1000 / frameDuration) : 0\<close>: a zero frame
  duration is falsy and takes the fallback branch.\<close>

definition velocityPerSecond :: "real \<Rightarrow> real \<Rightarrow> real" where
  "velocityPerSecond velocity frameDuration =
     (if frameDuration \<noteq> 0 then velocity * (1000 / frameDuration) else 0)"

definition secondsToMilliseconds :: "real \<Rightarrow> real" where
  "secondsToMilliseconds seconds = seconds * 1000"

definition millisecondsToSeconds :: "real \<Rightarrow> real" where
  "millisecondsToSeconds milliseconds = milliseconds / 1000"

section \<open>The render batcher: \<open>createRenderBatcher\<close>\<close>

record FrameData =
  delta :: real
  timestamp :: real
  frameIsProcessing :: bool

definition maxElapsed :: real where
  "maxElapsed = 40"

text \<open>
  The closure variables of \<open>createRenderBatcher\<close>. \<open>batchesRequested\<close> counts the calls
  of \<open>scheduleNextBatch(processBatch)\<close>; it is the only trace of the external frame source.
\<close>

record Batcher =
  runNextFrame :: bool
  useDefaultElapsed :: bool
  frameState :: FrameData
  batchesRequested :: nat

definition createRenderBatcher :: Batcher where
  "createRenderBatcher =
     \<lparr> runNextFrame = False, useDefaultElapsed = True,
       frameState = \<lparr> delta = 0, timestamp = 0, frameIsProcessing = False \<rparr>,
       batchesRequested = 0 \<rparr>"

definition wake :: "Batcher \<Rightarrow> Batcher" where
  "wake b =
     (let b1 = b\<lparr> runNextFrame := True, useDefaultElapsed := True \<rparr>
      in if \<not> frameIsProcessing (frameState b1)
         then b1\<lparr> batchesRequested := batchesRequested b1 + 1 \<rparr>
         else b1)"

text \<open>
  What a callback can do to the batcher while the six phases run: a keep-alive callback
  makes \<open>triggerCallback\<close> call \<open>flagRunNextFrame\<close>; any callback may call
  \<open>frame.<phase>(...)\<close>, whose batcher part is \<open>if (!runNextFrame) wake()\<close>.
\<close>

datatype BatchEvent = FlagRunNextFrame | ScheduleCall

fun batchEvent :: "BatchEvent \<Rightarrow> Batcher \<Rightarrow> Batcher" where
  "batchEvent FlagRunNextFrame b = b\<lparr> runNextFrame := True \<rparr>"
| "batchEvent ScheduleCall b = (if \<not> runNextFrame b then wake b else b)"

text \<open>
  \<open>processBatch\<close>. \<open>useManualTiming\<close> is the global configuration flag, \<open>now\<close> the reading of
  \<open>performance.now()\<close>, \<open>evs\<close> what the callbacks of the six phases asked of the batcher, in
  order. The frame data is written before the first phase runs, so it is what every
  callback of the frame receives.
\<close>

definition processBatch :: "bool \<Rightarrow> real \<Rightarrow> bool \<Rightarrow> BatchEvent list \<Rightarrow> Batcher \<Rightarrow> Batcher" where
  "processBatch useManualTiming now allowKeepAlive evs b =
     (let ts = (if useManualTiming then timestamp (frameState b) else now);
          b1 = b\<lparr> runNextFrame := False \<rparr>;
          d = (if useDefaultElapsed b1 then 1000 / 60
               else max (min (ts - timestamp (frameState b1)) maxElapsed) 1);
          b2 = b1\<lparr> frameState := \<lparr> delta = d, timestamp = ts, frameIsProcessing = True \<rparr> \<rparr>;
          b3 = fold batchEvent evs b2;
          b4 = b3\<lparr> frameState := (frameState b3)\<lparr> frameIsProcessing := False \<rparr> \<rparr>
      in if runNextFrame b4 \<and> allowKeepAlive
         then b4\<lparr> useDefaultElapsed := False, batchesRequested := batchesRequested b4 + 1 \<rparr>
         else b4)"

text \<open>The frame data that \<open>processBatch\<close> writes before the first phase runs.\<close>

definition broadcastFrame :: "bool \<Rightarrow> real \<Rightarrow> Batcher \<Rightarrow> FrameData" where
  "broadcastFrame useManualTiming now b =
     (let ts = (if useManualTiming then timestamp (frameState b) else now);
          d = (if useDefaultElapsed b then 1000 / 60
               else max (min (ts - timestamp (frameState b)) maxElapsed) 1)
      in \<lparr> delta = d, timestamp = ts, frameIsProcessing = True \<rparr>)"

text \<open>
  One wake cycle: the frame data of consecutive batches as each batch leaves it, each
  batch run with the clock reading and the callback requests of its frame, for as long
  as the batch before it asked \<open>scheduleNextBatch\<close> for another one.
\<close>

fun runFrames :: "bool \<Rightarrow> bool \<Rightarrow> (real \<times> BatchEvent list) list \<Rightarrow> Batcher \<Rightarrow> FrameData list" where
  "runFrames useManualTiming allowKeepAlive [] b = []"
| "runFrames useManualTiming allowKeepAlive ((now, evs) # fs) b =
     (let b' = processBatch useManualTiming now allowKeepAlive evs b
      in frameState b' #
           (if batchesRequested b' > batchesRequested b
            then runFrames useManualTiming allowKeepAlive fs b'
            else []))"

section \<open>A phase queue: \<open>createRenderStep\<close>\<close>

text \<open>
  Callbacks are compared by reference, so a callback is its identity. A JavaScript
  \<open>Set\<close> keeps insertion order and ignores a second \<open>add\<close> of a member: it is a list
  without repetitions.
\<close>

type_synonym Process = nat

definition setAdd :: "'a \<Rightarrow> 'a list \<Rightarrow> 'a list" where
  "setAdd x q = (if x \<in> set q then q else q @ [x])"

definition setDelete :: "'a \<Rightarrow> 'a list \<Rightarrow> 'a list" where
  "setDelete x q = removeAll x q"

text \<open>
  The closure variables of one step. \<open>invoked\<close> is the trace of callback invocations with
  the frame data each one received, \<open>passes\<close> counts how often the body of \<open>process\<close> got
  past the re-entrancy guard, \<open>runNextFrameCalls\<close> counts the calls of \<open>runNextFrame()\<close>.
\<close>

record Step =
  thisFrame :: "Process list"
  nextFrame :: "Process list"
  isProcessing :: bool
  flushNextFrame :: bool
  toKeepAlive :: "Process set"
  latestFrameData :: FrameData
  invoked :: "(Process \<times> FrameData) list"
  passes :: nat
  runNextFrameCalls :: nat

definition createRenderStep :: Step where
  "createRenderStep =
     \<lparr> thisFrame = [], nextFrame = [], isProcessing = False, flushNextFrame = False,
       toKeepAlive = {}, latestFrameData = \<lparr> delta = 0, timestamp = 0, frameIsProcessing = False \<rparr>,
       invoked = [], passes = 0, runNextFrameCalls = 0 \<rparr>"

text \<open>\<open>step.schedule(callback, keepAlive = false, immediate = false)\<close>\<close>

definition schedule :: "Process \<Rightarrow> bool \<Rightarrow> bool \<Rightarrow> Step \<Rightarrow> Step" where
  "schedule callback keepAlive immediate s =
     (let addToCurrentFrame = immediate \<and> isProcessing s;
          s1 = (if keepAlive then s\<lparr> toKeepAlive := insert callback (toKeepAlive s) \<rparr> else s)
      in if addToCurrentFrame
         then s1\<lparr> thisFrame := setAdd callback (thisFrame s1) \<rparr>
         else s1\<lparr> nextFrame := setAdd callback (nextFrame s1) \<rparr>)"

text \<open>\<open>step.cancel(callback)\<close>\<close>

definition cancel :: "Process \<Rightarrow> Step \<Rightarrow> Step" where
  "cancel callback s =
     s\<lparr> nextFrame := setDelete callback (nextFrame s),
        toKeepAlive := toKeepAlive s - {callback} \<rparr>"

text \<open>
  What the body of a callback does to the step it runs in: it may schedule, cancel, or
  call \<open>step.process\<close> again (a synchronous flush from inside a frame).
\<close>

datatype StepAction = Schedule Process bool bool | Cancel Process | ProcessStep FrameData

text \<open>
  \<open>step.process(frameData)\<close>, with \<open>thisFrame.forEach(triggerCallback)\<close> and the callbacks'
  bodies. \<open>Set.forEach\<close> also visits members added while it runs, so the loop follows the
  live list by index. A callback can schedule immediately without end, and a keep-alive
  callback can ask for a flush in every pass, so the functions take fuel: \<open>None\<close> is "did
  not return within this depth".
\<close>

fun process :: "nat \<Rightarrow> (Process \<Rightarrow> StepAction list) \<Rightarrow> FrameData \<Rightarrow> Step \<Rightarrow> Step option"
and forEachThisFrame :: "nat \<Rightarrow> (Process \<Rightarrow> StepAction list) \<Rightarrow> nat \<Rightarrow> Step \<Rightarrow> Step option"
and triggerCallback :: "nat \<Rightarrow> (Process \<Rightarrow> StepAction list) \<Rightarrow> Process \<Rightarrow> Step \<Rightarrow> Step option"
and runCallbackBody :: "nat \<Rightarrow> (Process \<Rightarrow> StepAction list) \<Rightarrow> StepAction list \<Rightarrow> Step \<Rightarrow> Step option"
where
  "process 0 body frameData s = None"
| "process (Suc n) body frameData s =
     (let s0 = s\<lparr> latestFrameData := frameData \<rparr>
      in if isProcessing s0 then Some (s0\<lparr> flushNextFrame := True \<rparr>)
         else
           (let s1 = s0\<lparr> isProcessing := True, passes := passes s0 + 1 \<rparr>;
                s2 = s1\<lparr> thisFrame := nextFrame s1, nextFrame := thisFrame s1 \<rparr>;
                s3 = s2\<lparr> nextFrame := [] \<rparr>
            in case forEachThisFrame n body 0 s3 of
                 None \<Rightarrow> None
               | Some s4 \<Rightarrow>
                   (let s5 = s4\<lparr> isProcessing := False \<rparr>
                    in if flushNextFrame s5
                       then process n body frameData (s5\<lparr> flushNextFrame := False \<rparr>)
                       else Some s5)))"
| "forEachThisFrame 0 body i s = None"
| "forEachThisFrame (Suc n) body i s =
     (if i < length (thisFrame s)
      then (case triggerCallback n body (thisFrame s ! i) s of
              None \<Rightarrow> None
            | Some s' \<Rightarrow> forEachThisFrame n body (Suc i) s')
      else Some s)"
| "triggerCallback 0 body callback s = None"
| "triggerCallback (Suc n) body callback s =
     (let s1 = (if callback \<in> toKeepAlive s
                then (schedule callback False False s)\<lparr> runNextFrameCalls := runNextFrameCalls s + 1 \<rparr>
                else s);
          s2 = s1\<lparr> invoked := invoked s1 @ [(callback, latestFrameData s1)] \<rparr>
      in runCallbackBody n body (body callback) s2)"
| "runCallbackBody 0 body acts s = None"
| "runCallbackBody (Suc n) body [] s = Some s"
| "runCallbackBody (Suc n) body (Schedule cb keepAlive immediate # acts) s =
     runCallbackBody n body acts (schedule cb keepAlive immediate s)"
| "runCallbackBody (Suc n) body (Cancel cb # acts) s =
     runCallbackBody n body acts (cancel cb s)"
| "runCallbackBody (Suc n) body (ProcessStep fd # acts) s =
     (case process n body fd s of
        None \<Rightarrow> None
      | Some s' \<Rightarrow> runCallbackBody n body acts s')"

subsection \<open>The effect of a pass, for callbacks that stay out of the running pass\<close>

text \<open>
  A callback body is \<open>quiet\<close> when it never schedules into the running pass, and \<open>plain\<close>
  when it also never calls \<open>process\<close>. For quiet bodies the pass has a closed form:
  \<open>actEffect\<close> is what one action does while the step is processing, \<open>callbackEffect\<close> what
  \<open>triggerCallback\<close> does, \<open>startPass\<close> the state when the loop starts and \<open>firstPass\<close> the
  state when the pass has ended and the flush flag is cleared.
\<close>

fun quiet :: "StepAction \<Rightarrow> bool" where
  "quiet (Schedule cb keepAlive immediate) = (\<not> immediate)"
| "quiet (Cancel cb) = True"
| "quiet (ProcessStep fd) = True"

fun plain :: "StepAction \<Rightarrow> bool" where
  "plain (Schedule cb keepAlive immediate) = (\<not> immediate)"
| "plain (Cancel cb) = True"
| "plain (ProcessStep fd) = False"

fun actEffect :: "StepAction \<Rightarrow> Step \<Rightarrow> Step" where
  "actEffect (Schedule cb keepAlive immediate) s = schedule cb keepAlive immediate s"
| "actEffect (Cancel cb) s = cancel cb s"
| "actEffect (ProcessStep fd) s = s\<lparr> latestFrameData := fd, flushNextFrame := True \<rparr>"

definition callbackEffect :: "(Process \<Rightarrow> StepAction list) \<Rightarrow> Process \<Rightarrow> Step \<Rightarrow> Step" where
  "callbackEffect body callback s =
     (let s1 = (if callback \<in> toKeepAlive s
                then (schedule callback False False s)\<lparr> runNextFrameCalls := runNextFrameCalls s + 1 \<rparr>
                else s);
          s2 = s1\<lparr> invoked := invoked s1 @ [(callback, latestFrameData s1)] \<rparr>
      in fold actEffect (body callback) s2)"

definition firstPass :: "(Process \<Rightarrow> StepAction list) \<Rightarrow> FrameData \<Rightarrow> Step \<Rightarrow> Step" where
  "firstPass body frameData s =
     (fold (callbackEffect body) (nextFrame s)
        (s\<lparr> latestFrameData := frameData, isProcessing := True, passes := passes s + 1,
            thisFrame := nextFrame s, nextFrame := [] \<rparr>))
     \<lparr> isProcessing := False, flushNextFrame := False \<rparr>"

definition startPass :: "FrameData \<Rightarrow> Step \<Rightarrow> Step" where
  "startPass frameData s =
     s\<lparr> latestFrameData := frameData, isProcessing := True, passes := passes s + 1,
        thisFrame := nextFrame s, nextFrame := [] \<rparr>"

definition frame16 :: FrameData where
  "frame16 = \<lparr> delta = 1000 / 60, timestamp = 100, frameIsProcessing = True \<rparr>"

definition flushingBody :: "Process \<Rightarrow> StepAction list" where
  "flushingBody c = (if c = 1 then [Schedule 2 False False, ProcessStep frame16] else [])"

section \<open>Duration-based spring resolution: \<open>findSpring\<close>\<close>

definition safeMin :: real where "safeMin = 0.001"
definition minDuration :: real where "minDuration = 0.01"
definition maxDuration :: real where "maxDuration = 10.0"
definition minDamping :: real where "minDamping = 0.05"
definition maxDamping :: real where "maxDamping = 1"

definition calcAngularFreq :: "real \<Rightarrow> real \<Rightarrow> real" where
  "calcAngularFreq undampedFreq dampingRatio = undampedFreq * sqrt (1 - dampingRatio * dampingRatio)"

definition rootIterations :: nat where "rootIterations = 12"

text \<open>
  \<^verbatim>\<open>for (let i = 1; i < rootIterations; i++) { result = result - envelope(result) / derivative(result); }\<close>
\<close>

function approximateRootLoop :: "nat \<Rightarrow> (real \<Rightarrow> real) \<Rightarrow> (real \<Rightarrow> real) \<Rightarrow> real \<Rightarrow> real" where
  "approximateRootLoop i envelope derivative result =
     (if i < rootIterations
      then approximateRootLoop (i + 1) envelope derivative (result - envelope result / derivative result)
      else result)"
  by pat_completeness auto
termination
  by (relation "measure (\<lambda>(i, envelope, derivative, result). rootIterations - i)") auto

declare approximateRootLoop.simps [simp del]

definition approximateRoot :: "(real \<Rightarrow> real) \<Rightarrow> (real \<Rightarrow> real) \<Rightarrow> real \<Rightarrow> real" where
  "approximateRoot envelope derivative initialGuess = approximateRootLoop 1 envelope derivative initialGuess"

text \<open>
  The two closures of \<open>findSpring\<close>, over the clamped damping ratio and the clamped
  duration in seconds: the underdamped pair when \<open>dampingRatio < 1\<close>, else the critically
  damped pair.
\<close>

definition springEnvelope :: "real \<Rightarrow> real \<Rightarrow> real \<Rightarrow> real \<Rightarrow> real" where
  "springEnvelope dampingRatio duration velocity undampedFreq =
     (if dampingRatio < 1
      then (let exponentialDecay = undampedFreq * dampingRatio;
                delta = exponentialDecay * duration;
                a = exponentialDecay - velocity;
                b = calcAngularFreq undampedFreq dampingRatio;
                c = exp (- delta)
            in safeMin - (a / b) * c)
      else (let a = exp (- undampedFreq * duration);
                b = (undampedFreq - velocity) * duration + 1
            in - safeMin + a * b))"

definition springDerivative :: "real \<Rightarrow> real \<Rightarrow> real \<Rightarrow> real \<Rightarrow> real" where
  "springDerivative dampingRatio duration velocity undampedFreq =
     (if dampingRatio < 1
      then (let exponentialDecay = undampedFreq * dampingRatio;
                delta = exponentialDecay * duration;
                d = delta * velocity + velocity;
                e = dampingRatio ^ 2 * undampedFreq ^ 2 * duration;
                f = exp (- delta);
                g = calcAngularFreq (undampedFreq ^ 2) dampingRatio;
                factor = (if - springEnvelope dampingRatio duration velocity undampedFreq + safeMin > 0
                          then - 1 else 1)
            in (factor * ((d - e) * f)) / g)
      else (let a = exp (- undampedFreq * duration);
                b = (velocity - undampedFreq) * (duration * duration)
            in a * b))"

text \<open>A real number is never \<open>NaN\<close>: over the reals the fallback branch of \<open>findSpring\<close> is
  never taken. It is kept so that the definition reads as the source does.\<close>

definition isNaN :: "real \<Rightarrow> bool" where
  "isNaN x = False"

record FoundSpring =
  stiffness :: real
  damping :: real
  springDuration :: real
  warnings :: "string list"

text \<open>
  \<open>findSpring({ duration = 800, bounce = 0.25, velocity = 0, mass = 1 })\<close>: an absent option
  is \<open>None\<close> and takes its default. \<open>warning(check, message)\<close> of a development build
  logs the message when the check fails and returns.
\<close>

definition findSpring :: "real option \<Rightarrow> real option \<Rightarrow> real option \<Rightarrow> real option \<Rightarrow> FoundSpring" where
  "findSpring durationOpt bounceOpt velocityOpt massOpt =
     (let duration = (case durationOpt of None \<Rightarrow> 800 | Some d \<Rightarrow> d);
          bounce = (case bounceOpt of None \<Rightarrow> 0.25 | Some b \<Rightarrow> b);
          velocity = (case velocityOpt of None \<Rightarrow> 0 | Some v \<Rightarrow> v);
          mass = (case massOpt of None \<Rightarrow> 1 | Some m \<Rightarrow> m);
          warned = (if duration \<le> secondsToMilliseconds maxDuration then []
                    else [''Spring duration must be 10 seconds or less'']);
          dampingRatio = clamp minDamping maxDamping (1 - bounce);
          duration = clamp minDuration maxDuration (millisecondsToSeconds duration);
          initialGuess = 5 / duration;
          undampedFreq = approximateRoot (springEnvelope dampingRatio duration velocity)
                           (springDerivative dampingRatio duration velocity) initialGuess;
          duration = secondsToMilliseconds duration
      in if isNaN undampedFreq
         then \<lparr> stiffness = 100, damping = 10, springDuration = duration, warnings = warned \<rparr>
         else (let stiffness = undampedFreq ^ 2 * mass
               in \<lparr> stiffness = stiffness,
                    damping = dampingRatio * 2 * sqrt (mass * stiffness),
                    springDuration = duration, warnings = warned \<rparr>))"

text \<open>One update of Newton's method, \<open>x \<leftarrow> x - envelope(x) / derivative(x)\<close>.\<close>

definition newtonUpdate :: "(real \<Rightarrow> real) \<Rightarrow> (real \<Rightarrow> real) \<Rightarrow> real \<Rightarrow> real" where
  "newtonUpdate envelope derivative x = x - envelope x / derivative x"

section \<open>Values, errors, \<open>SubscriptionManager\<close> and \<open>MotionValue\<close>\<close>

text \<open>
  A keyframe or a motion value's state is a number, a string, \<open>null\<close> or \<open>undefined\<close>;
  \<open>===\<close> on these is equality. A thrown JavaScript error is a value; a method that can
  throw returns the error, if any, next to the object as the throw left it, since the
  mutations made before a throw stay.
\<close>

datatype jsval = Undefined | Null | Num real | Str string

datatype error = TypeError string | ReferenceError string

fun addUniqueItem :: "'a list \<Rightarrow> 'a \<Rightarrow> 'a list" where
  "addUniqueItem arr item = (if item \<notin> set arr then arr @ [item] else arr)"

fun removeItem :: "'a list \<Rightarrow> 'a \<Rightarrow> 'a list" where
  "removeItem arr item = remove1 item arr"

text \<open>
  \<open>SubscriptionManager\<close> keeps its handlers in the private field \<open>#subscriptions\<close>. A
  handler is its identity; calling it is recorded as the pair of the handler and the
  argument it received (handlers are observers: they do not change the subscriptions
  they are called from, and do not throw).
\<close>

record SubscriptionManager =
  subscriptions :: "nat list"

definition newSubscriptionManager :: SubscriptionManager where
  "newSubscriptionManager = \<lparr> subscriptions = [] \<rparr>"

definition add :: "nat \<Rightarrow> SubscriptionManager \<Rightarrow> SubscriptionManager" where
  "add handler m = m\<lparr> subscriptions := addUniqueItem (subscriptions m) handler \<rparr>"

text \<open>The closure that \<open>add\<close> returns.\<close>

definition unsubscribe :: "nat \<Rightarrow> SubscriptionManager \<Rightarrow> SubscriptionManager" where
  "unsubscribe handler m = m\<lparr> subscriptions := removeItem (subscriptions m) handler \<rparr>"

text \<open>
  The loop of \<open>notify\<close>:
  \<^verbatim>\<open>for (let i = 0; i < numSubscriptions; i++) { const handler = this.#subscriptions[i]; handler && handler(a, b, c); }\<close>
\<close>

function notifyLoop :: "nat \<Rightarrow> nat \<Rightarrow> nat list \<Rightarrow> jsval \<Rightarrow> (nat \<times> jsval) list" where
  "notifyLoop i numSubscriptions subs a =
     (if i < numSubscriptions
      then (if i < length subs then [(subs ! i, a)] else []) @ notifyLoop (i + 1) numSubscriptions subs a
      else [])"
  by pat_completeness auto
termination
  by (relation "measure (\<lambda>(i, numSubscriptions, subs, a). numSubscriptions - i)") auto

declare notifyLoop.simps [simp del]

text \<open>
  \<open>notify\<close>. With exactly one handler the source reads \<open>this.subscriptions[0]\<close>, not
  \<open>this.#subscriptions[0]\<close>: the public property \<open>subscriptions\<close> does not exist on the
  object, so indexing it throws a \<open>TypeError\<close> before any handler is called.
\<close>

definition notify :: "jsval \<Rightarrow> SubscriptionManager \<Rightarrow> error + (nat \<times> jsval) list" where
  "notify a m =
     (let numSubscriptions = length (subscriptions m)
      in if numSubscriptions = 0 then Inr []
         else if numSubscriptions = 1
         then Inl (TypeError ''cannot read property 0 of undefined (this.subscriptions)'')
         else Inr (notifyLoop 0 numSubscriptions (subscriptions m) a))"

definition getSize :: "SubscriptionManager \<Rightarrow> nat" where
  "getSize m = length (subscriptions m)"

subsection \<open>\<open>MotionValue\<close>\<close>

text \<open>
  \<open>isFloat(value)\<close> is \<open>!Number.isNaN(Number.parseFloat(value))\<close>: \<open>parseFloat\<close> skips
  leading white space and reads the longest numeric prefix.
\<close>

definition isDigit :: "char \<Rightarrow> bool" where
  "isDigit c = (c \<in> set ''0123456789'')"

fun unsignedFloatPrefix :: "string \<Rightarrow> bool" where
  "unsignedFloatPrefix [] = False"
| "unsignedFloatPrefix (c # cs) =
     (if isDigit c then True
      else if c = CHR ''.'' then (case cs of [] \<Rightarrow> False | d # _ \<Rightarrow> isDigit d)
      else take 8 (c # cs) = ''Infinity'')"

definition floatPrefix :: "string \<Rightarrow> bool" where
  "floatPrefix s =
     (case dropWhile (\<lambda>c. c \<in> set [CHR '' '', CHR 0x09, CHR 0x0A, CHR 0x0B, CHR 0x0C, CHR 0x0D]) s of
        [] \<Rightarrow> False
      | c # cs \<Rightarrow> if c = CHR ''+'' \<or> c = CHR ''-'' then unsignedFloatPrefix cs
                  else unsignedFloatPrefix (c # cs))"

fun isFloat :: "jsval \<Rightarrow> bool" where
  "isFloat (Num x) = True"
| "isFloat (Str s) = floatPrefix s"
| "isFloat Null = False"
| "isFloat Undefined = False"

text \<open>
  The fields of a \<open>MotionValue\<close> constructed without a \<open>startStopNotifier\<close> (so
  \<open>#onSubscription\<close> and \<open>#onUnsubscription\<close> are the empty functions). \<open>events\<close> maps an
  event name to its manager once \<open>on\<close> created it. A passive effect receives the value
  and the setter; it is modelled by the values it hands to the setter. \<open>notifications\<close>
  is the trace of handler calls: event name, handler, argument.
\<close>

record MotionValue =
  current :: jsval
  prev :: jsval
  prevFrameValue :: jsval
  updatedAt :: "real option"
  prevUpdatedAt :: "real option"
  canTrackVelocity :: "bool option"
  events :: "string \<Rightarrow> SubscriptionManager option"
  passiveEffect :: "(jsval \<Rightarrow> jsval list) option"
  notifications :: "(string \<times> nat \<times> jsval) list"

definition setCurrent :: "jsval \<Rightarrow> real \<Rightarrow> MotionValue \<Rightarrow> MotionValue" where
  "setCurrent v now mv =
     (let mv1 = mv\<lparr> current := v, updatedAt := Some now \<rparr>
      in if canTrackVelocity mv1 = None \<and> v \<noteq> Undefined
         then mv1\<lparr> canTrackVelocity := Some (isFloat (current mv1)) \<rparr>
         else mv1)"

definition setPrevFrameValue :: "MotionValue \<Rightarrow> MotionValue" where
  "setPrevFrameValue mv = mv\<lparr> prevFrameValue := current mv, prevUpdatedAt := updatedAt mv \<rparr>"

text \<open>\<open>motionValue(init)\<close> at clock reading \<open>now\<close>.\<close>

definition motionValue :: "jsval \<Rightarrow> real \<Rightarrow> MotionValue" where
  "motionValue init now =
     setCurrent init now
       \<lparr> current = Undefined, prev = Undefined, prevFrameValue = Undefined,
         updatedAt = None, prevUpdatedAt = None, canTrackVelocity = None,
         events = (\<lambda>_. None), passiveEffect = None, notifications = [] \<rparr>"

text \<open>\<open>on(eventName, callback)\<close>\<close>

definition on :: "string \<Rightarrow> nat \<Rightarrow> MotionValue \<Rightarrow> MotionValue" where
  "on eventName callback mv =
     (let m = (case events mv eventName of None \<Rightarrow> newSubscriptionManager | Some m \<Rightarrow> m)
      in mv\<lparr> events := (events mv)(eventName \<mapsto> add callback m) \<rparr>)"

definition attach :: "(jsval \<Rightarrow> jsval list) \<Rightarrow> MotionValue \<Rightarrow> MotionValue" where
  "attach effect mv = mv\<lparr> passiveEffect := Some effect \<rparr>"

text \<open>\<open>this.#events[name].notify(this.current)\<close>, when the manager exists.\<close>

definition notifyEvent :: "string \<Rightarrow> MotionValue \<Rightarrow> error option \<times> MotionValue" where
  "notifyEvent eventName mv =
     (case events mv eventName of
        None \<Rightarrow> (None, mv)
      | Some m \<Rightarrow>
          (case notify (current mv) m of
             Inl e \<Rightarrow> (Some e, mv)
           | Inr calls \<Rightarrow>
               (None, mv\<lparr> notifications := notifications mv @ map (\<lambda>(h, a). (eventName, h, a)) calls \<rparr>)))"

definition updateAndNotify :: "jsval \<Rightarrow> bool \<Rightarrow> real \<Rightarrow> MotionValue \<Rightarrow> error option \<times> MotionValue" where
  "updateAndNotify v render now mv =
     (let mv1 = (if updatedAt mv \<noteq> Some now then setPrevFrameValue mv else mv);
          mv2 = mv1\<lparr> prev := current mv1 \<rparr>;
          mv3 = setCurrent v now mv2;
          (e, mv4) = (if current mv3 \<noteq> prev mv3 then notifyEvent ''change'' mv3 else (None, mv3))
      in case e of
           Some err \<Rightarrow> (Some err, mv4)
         | None \<Rightarrow> if render then notifyEvent ''renderRequest'' mv4 else (None, mv4))"

text \<open>The setter handed to a passive effect is \<open>updateAndNotify\<close> with \<open>render\<close> at its default.\<close>

fun updateAll :: "jsval list \<Rightarrow> real \<Rightarrow> MotionValue \<Rightarrow> error option \<times> MotionValue" where
  "updateAll [] now mv = (None, mv)"
| "updateAll (v # vs) now mv =
     (case updateAndNotify v True now mv of
        (Some err, mv') \<Rightarrow> (Some err, mv')
      | (None, mv') \<Rightarrow> updateAll vs now mv')"

text \<open>\<open>set(v, render = true)\<close>\<close>

definition set_value :: "jsval \<Rightarrow> bool \<Rightarrow> real \<Rightarrow> MotionValue \<Rightarrow> error option \<times> MotionValue" where
  "set_value v render now mv =
     (case passiveEffect mv of
        Some effect \<Rightarrow> if \<not> render then updateAndNotify v render now mv else updateAll (effect v) now mv
      | None \<Rightarrow> updateAndNotify v render now mv)"

definition get :: "MotionValue \<Rightarrow> jsval" where
  "get mv = current mv"

section \<open>\<open>KeyframeResolver\<close>\<close>

text \<open>
  The element adapter is an external collaborator: of it the resolver uses
  \<open>element.readValue(name, finalKeyframe)\<close>, and the playback controller asks whether the
  element brings a resolver class of its own, which resolves asynchronously.
\<close>

record Element =
  readValue :: "string \<Rightarrow> jsval \<Rightarrow> jsval"
  bringsAsyncResolver :: bool

text \<open>
  The fields of a resolver, the motion value and element it refers to, and what the
  module-level state holds about it: \<open>inToResolve\<close> is its membership in the set
  \<open>toResolve\<close>, \<open>flushScheduled\<close> the module's \<open>isScheduled\<close> flag. \<open>completions\<close> is the trace of
  the calls of the completion callback, with the keyframes and final keyframe passed.
\<close>

record KeyframeResolver =
  unresolvedKeyframes :: "jsval list"
  resolverName :: "string option"
  finalKeyframe :: jsval
  resolverMotionValue :: "MotionValue option"
  resolverElement :: "Element option"
  isComplete :: bool
  isAsync :: bool
  needsMeasurement :: bool
  isScheduled :: bool
  inToResolve :: bool
  flushScheduled :: bool
  completions :: "(jsval list \<times> jsval) list"

text \<open>\<open>new KeyframeResolver(unresolvedKeyframes, onComplete, name, motionValue, element, isAsync = false)\<close>\<close>

definition newKeyframeResolver ::
  "jsval list \<Rightarrow> string option \<Rightarrow> MotionValue option \<Rightarrow> Element option \<Rightarrow> bool \<Rightarrow> KeyframeResolver" where
  "newKeyframeResolver keyframes name mv element async =
     \<lparr> unresolvedKeyframes = keyframes, resolverName = name, finalKeyframe = Undefined,
       resolverMotionValue = mv, resolverElement = element,
       isComplete = False, isAsync = async, needsMeasurement = False, isScheduled = False,
       inToResolve = False, flushScheduled = False, completions = [] \<rparr>"

text \<open>A name is truthy when it is a non-empty string.\<close>

definition truthyName :: "string option \<Rightarrow> bool" where
  "truthyName name = (case name of None \<Rightarrow> False | Some n \<Rightarrow> n \<noteq> [])"

text \<open>
  The branch \<open>i === 0\<close> of \<open>readKeyframes\<close>, for a first keyframe that is \<open>null\<close>: the new
  keyframe list and, when the motion value had no current value, the outcome of
  \<open>motionValue.set(unresolvedKeyframes[0])\<close>.
\<close>

definition readFirstKeyframe ::
  "real \<Rightarrow> string option \<Rightarrow> Element option \<Rightarrow> MotionValue option \<Rightarrow> jsval list
     \<Rightarrow> error option \<times> jsval list \<times> MotionValue option" where
  "readFirstKeyframe now name element mv ks =
     (let currentValue = (case mv of None \<Rightarrow> Undefined | Some m \<Rightarrow> get m);
          finalKeyframe = ks ! (length ks - 1);
          ks1 = (if currentValue \<noteq> Undefined then ks[0 := currentValue]
                 else (case element of
                         None \<Rightarrow> ks
                       | Some el \<Rightarrow>
                           if truthyName name
                           then (let valueAsRead = readValue el (the name) finalKeyframe
                                 in if valueAsRead \<noteq> Undefined \<and> valueAsRead \<noteq> Null
                                    then ks[0 := valueAsRead] else ks)
                           else ks));
          ks2 = (if ks1 ! 0 = Undefined then ks1[0 := finalKeyframe] else ks1)
      in case mv of
           None \<Rightarrow> (None, ks2, None)
         | Some m \<Rightarrow>
             if currentValue = Undefined
             then (case set_value (ks2 ! 0) True now m of (e, m') \<Rightarrow> (e, ks2, Some m'))
             else (None, ks2, Some m))"

text \<open>
  The loop of \<open>readKeyframes\<close> from index \<open>i\<close>, over a list of \<open>n\<close> keyframes (the loop
  assigns to existing indices only, so the length it tests never changes).
\<close>

function readKeyframesLoop ::
  "nat \<Rightarrow> nat \<Rightarrow> real \<Rightarrow> string option \<Rightarrow> Element option \<Rightarrow> MotionValue option \<Rightarrow> jsval list
     \<Rightarrow> error option \<times> jsval list \<times> MotionValue option" where
  "readKeyframesLoop i n now name element mv ks =
     (if i < n
      then (if ks ! i = Null
            then (if i = 0
                  then (case readFirstKeyframe now name element mv ks of
                          (Some e, ks', mv') \<Rightarrow> (Some e, ks', mv')
                        | (None, ks', mv') \<Rightarrow> readKeyframesLoop (i + 1) n now name element mv' ks')
                  else readKeyframesLoop (i + 1) n now name element mv (ks[i := ks ! (i - 1)]))
            else readKeyframesLoop (i + 1) n now name element mv ks)
      else (None, ks, mv))"
  by pat_completeness auto
termination
  by (relation "measure (\<lambda>(i, n, now, name, element, mv, ks). n - i)") auto

declare readKeyframesLoop.simps [simp del]

definition readKeyframes :: "real \<Rightarrow> KeyframeResolver \<Rightarrow> error option \<times> KeyframeResolver" where
  "readKeyframes now r =
     (case readKeyframesLoop 0 (length (unresolvedKeyframes r)) now (resolverName r)
             (resolverElement r) (resolverMotionValue r) (unresolvedKeyframes r) of
        (e, ks, mv) \<Rightarrow> (e, r\<lparr> unresolvedKeyframes := ks, resolverMotionValue := mv \<rparr>))"

text \<open>
  \<open>complete()\<close>: set \<open>isComplete\<close>, call the completion callback, then
  \<open>toResolve.delete(this)\<close>. \<open>thrown\<close> is what the callback threw, if anything; a throw leaves
  the method before the delete.
\<close>

definition complete :: "error option \<Rightarrow> KeyframeResolver \<Rightarrow> error option \<times> KeyframeResolver" where
  "complete thrown r =
     (let r1 = r\<lparr> isComplete := True,
                  completions := completions r @ [(unresolvedKeyframes r, finalKeyframe r)] \<rparr>
      in case thrown of
           Some e \<Rightarrow> (Some e, r1)
         | None \<Rightarrow> (None, r1\<lparr> inToResolve := False \<rparr>))"

text \<open>\<open>scheduleResolve()\<close>, with a completion callback that returns normally.\<close>

definition scheduleResolve :: "real \<Rightarrow> KeyframeResolver \<Rightarrow> error option \<times> KeyframeResolver" where
  "scheduleResolve now r =
     (let r1 = r\<lparr> isScheduled := True \<rparr>
      in if isAsync r1
         then (None, r1\<lparr> inToResolve := True, flushScheduled := True \<rparr>)
         else (case readKeyframes now r1 of
                 (Some e, r2) \<Rightarrow> (Some e, r2)
               | (None, r2) \<Rightarrow> complete None r2))"

definition resolverCancel :: "KeyframeResolver \<Rightarrow> KeyframeResolver" where
  "resolverCancel r =
     (if \<not> isComplete r then r\<lparr> isScheduled := False, inToResolve := False \<rparr> else r)"

definition resume :: "real \<Rightarrow> KeyframeResolver \<Rightarrow> error option \<times> KeyframeResolver" where
  "resume now r = (if \<not> isComplete r then scheduleResolve now r else (None, r))"

text \<open>Calling \<open>complete()\<close> \<open>k\<close> times in a row, the callback returning normally each time.\<close>

fun completeTimes :: "nat \<Rightarrow> KeyframeResolver \<Rightarrow> KeyframeResolver" where
  "completeTimes 0 r = r"
| "completeTimes (Suc k) r = completeTimes k (snd (complete None r))"

section \<open>The playback controller: \<open>BaseAnimation\<close> and \<open>MainThreadAnimation\<close>\<close>

datatype AnimationPlayState = Idle | Running | Paused | Finished

datatype RepeatType = Loop | Reverse | Mirror

text \<open>\<open>type\<close>: one of the named generators, a generator function, or any other string.\<close>

datatype AnimationGeneratorType =
  Decay | Inertia | Tween | Keyframes | Spring | GeneratorFunction | OtherType string

datatype Easing = Linear | EaseInOut | EaseOut | OtherEasing string

text \<open>The iterator result \<open>{ done, value }\<close> of a generator.\<close>

record AnimationState =
  sampleDone :: bool
  sampleValue :: jsval

text \<open>
  The options object after the constructor of \<open>BaseAnimation\<close> has filled in its defaults
  (\<open>autoplay = true\<close>, \<open>delay = 0\<close>, \<open>type = 'keyframes'\<close>, \<open>repeat = 0\<close>, \<open>repeatDelay = 0\<close>,
  \<open>repeatType = 'loop'\<close>). The lifecycle callbacks are observers: a callback that is
  present is recorded in the trace when it is called. \<open>driverOption\<close> says whether the
  caller passed a \<open>driver\<close>.
\<close>

record Options =
  autoplay :: bool
  delay :: real
  generatorType :: AnimationGeneratorType
  repeat :: nat
  repeatDelay :: real
  repeatType :: RepeatType
  keyframeValues :: "jsval list"
  name :: "string option"
  velocity :: "real option"
  duration :: "real option"
  ease :: Easing
  timesOption :: "real list option"
  isGenerator :: bool
  startTimeOption :: "real option"
  driverOption :: bool
  optionsMotionValue :: "MotionValue option"
  element :: "Element option"
  onUpdate :: bool
  onPlay :: bool
  onComplete :: bool
  onStop :: bool

text \<open>The options as the caller passes them: an absent option is \<open>None\<close>.\<close>

record ValueAnimationOptions =
  autoplayGiven :: "bool option"
  delayGiven :: "real option"
  typeGiven :: "AnimationGeneratorType option"
  repeatGiven :: "nat option"
  repeatDelayGiven :: "real option"
  repeatTypeGiven :: "RepeatType option"
  keyframesGiven :: "jsval list"
  nameGiven :: "string option"
  velocityGiven :: "real option"
  durationGiven :: "real option"
  easeGiven :: "Easing option"
  timesGiven :: "real list option"
  isGeneratorGiven :: bool
  startTimeGiven :: "real option"
  driverGiven :: bool
  motionValueGiven :: "MotionValue option"
  elementGiven :: "Element option"
  onUpdateGiven :: bool
  onPlayGiven :: bool
  onCompleteGiven :: bool
  onStopGiven :: bool

definition withDefaults :: "ValueAnimationOptions \<Rightarrow> Options" where
  "withDefaults given =
     \<lparr> autoplay = (case autoplayGiven given of None \<Rightarrow> True | Some b \<Rightarrow> b),
       delay = (case delayGiven given of None \<Rightarrow> 0 | Some d \<Rightarrow> d),
       generatorType = (case typeGiven given of None \<Rightarrow> Keyframes | Some t \<Rightarrow> t),
       repeat = (case repeatGiven given of None \<Rightarrow> 0 | Some n \<Rightarrow> n),
       repeatDelay = (case repeatDelayGiven given of None \<Rightarrow> 0 | Some d \<Rightarrow> d),
       repeatType = (case repeatTypeGiven given of None \<Rightarrow> Loop | Some t \<Rightarrow> t),
       keyframeValues = keyframesGiven given,
       name = nameGiven given,
       velocity = velocityGiven given,
       duration = durationGiven given,
       ease = (case easeGiven given of None \<Rightarrow> EaseInOut | Some e \<Rightarrow> e),
       timesOption = timesGiven given,
       isGenerator = isGeneratorGiven given,
       startTimeOption = startTimeGiven given,
       driverOption = driverGiven given,
       optionsMotionValue = motionValueGiven given,
       element = elementGiven given,
       onUpdate = onUpdateGiven given,
       onPlay = onPlayGiven given,
       onComplete = onCompleteGiven given,
       onStop = onStopGiven given \<rparr>"

text \<open>What \<open>initPlayback\<close> returns and \<open>onKeyframesResolved\<close> stores in \<open>_resolved\<close>.\<close>

record ResolvedData =
  resolvedKeyframes :: "jsval list"
  resolvedFinalKeyframe :: jsval
  generator :: "real \<Rightarrow> AnimationState"
  mirroredGenerator :: "(real \<Rightarrow> AnimationState) option"
  mapPercentToKeyframes :: "(jsval \<Rightarrow> jsval) option"
  calculatedDuration :: "real option"
  resolvedDuration :: real
  totalDuration :: real

datatype Callback = OnUpdate jsval | OnPlay | OnComplete | OnStop

text \<open>
  The fields of a \<open>MainThreadAnimation\<close>. \<open>promises\<close> lists the finished promises created
  so far, each with whether it has been resolved; the last one is
  \<open>currentFinishedPromise\<close>, the first is the one a caller who awaits the new controller
  holds. \<open>driver\<close> is \<open>None\<close> when there is no driver, else whether it has been started.
  \<open>callbacks\<close> is the trace of lifecycle callbacks.
\<close>

record MainThreadAnimation =
  options :: Options
  isStopped :: bool
  resolved :: "ResolvedData option"
  hasAttemptedResolve :: bool
  resolver :: KeyframeResolver
  createdAt :: real
  resolvedAt :: "real option"
  driver :: "bool option"
  holdTime :: "real option"
  cancelTime :: "real option"
  currentTime :: real
  playbackSpeed :: real
  pendingPlayState :: AnimationPlayState
  startTime :: "real option"
  playState :: AnimationPlayState
  promises :: "bool list"
  callbacks :: "Callback list"

definition MAX_RESOLVE_DELAY :: real where
  "MAX_RESOLVE_DELAY = 40"

definition instantAnimationState :: bool where
  "instantAnimationState = False"

definition updateFinishedPromise :: "MainThreadAnimation \<Rightarrow> MainThreadAnimation" where
  "updateFinishedPromise a = a\<lparr> promises := promises a @ [False] \<rparr>"

definition resolveFinishedPromise :: "MainThreadAnimation \<Rightarrow> MainThreadAnimation" where
  "resolveFinishedPromise a = a\<lparr> promises := (promises a)[length (promises a) - 1 := True] \<rparr>"

definition invokeCallback :: "bool \<Rightarrow> Callback \<Rightarrow> MainThreadAnimation \<Rightarrow> MainThreadAnimation" where
  "invokeCallback present c a = (if present then a\<lparr> callbacks := callbacks a @ [c] \<rparr> else a)"

definition calcStartTime :: "MainThreadAnimation \<Rightarrow> real" where
  "calcStartTime a =
     (case resolvedAt a of
        None \<Rightarrow> createdAt a
      | Some r \<Rightarrow> if r = 0 then createdAt a
                  else if r - createdAt a > MAX_RESOLVE_DELAY then r else createdAt a)"

subsection \<open>\<open>canAnimate\<close> and \<open>getFinalKeyframe\<close>\<close>

definition startsWith :: "string \<Rightarrow> string \<Rightarrow> bool" where
  "startsWith s p = (take (length p) s = p)"

text \<open>
  \<open>isNaN(v)\<close> for a string \<open>v\<close>: the string is converted to a number, which is \<open>NaN\<close> unless
  the string, with white space trimmed at both ends, is empty, a decimal literal with an
  optional sign (digits with an optional fraction and exponent, or \<open>Infinity\<close>), or an
  unsigned binary, octal or hexadecimal integer literal.
\<close>

definition isWhiteSpace :: "char \<Rightarrow> bool" where
  "isWhiteSpace c = (c \<in> set [CHR '' '', CHR 0x09, CHR 0x0A, CHR 0x0B, CHR 0x0C, CHR 0x0D])"

definition trim :: "string \<Rightarrow> string" where
  "trim s = rev (dropWhile isWhiteSpace (rev (dropWhile isWhiteSpace s)))"

definition digitsOnly :: "string \<Rightarrow> string \<Rightarrow> bool" where
  "digitsOnly allowed s = (s \<noteq> [] \<and> list_all (\<lambda>c. c \<in> set allowed) s)"

definition dropSign :: "string \<Rightarrow> string" where
  "dropSign s = (case s of [] \<Rightarrow> [] | c # cs \<Rightarrow> if c = CHR ''+'' \<or> c = CHR ''-'' then cs else s)"

definition exponentOrEnd :: "string \<Rightarrow> bool" where
  "exponentOrEnd s =
     (case s of
        [] \<Rightarrow> True
      | c # cs \<Rightarrow> (c = CHR ''e'' \<or> c = CHR ''E'') \<and> digitsOnly ''0123456789'' (dropSign cs))"

definition unsignedDecimalLiteral :: "string \<Rightarrow> bool" where
  "unsignedDecimalLiteral s =
     (if s = ''Infinity'' then True
      else case s of
             [] \<Rightarrow> False
           | c # cs \<Rightarrow>
               if c = CHR ''.''
               then takeWhile isDigit cs \<noteq> [] \<and> exponentOrEnd (dropWhile isDigit cs)
               else takeWhile isDigit s \<noteq> []
                    \<and> (case dropWhile isDigit s of
                           [] \<Rightarrow> True
                         | d # ds \<Rightarrow> if d = CHR ''.'' then exponentOrEnd (dropWhile isDigit ds)
                                      else exponentOrEnd (d # ds)))"

definition nonDecimalIntegerLiteral :: "string \<Rightarrow> bool" where
  "nonDecimalIntegerLiteral s =
     (case s of
        z # x # ds \<Rightarrow>
          z = CHR ''0''
          \<and> ((x \<in> set ''xX'' \<and> digitsOnly ''0123456789abcdefABCDEF'' ds)
               \<or> (x \<in> set ''oO'' \<and> digitsOnly ''01234567'' ds)
               \<or> (x \<in> set ''bB'' \<and> digitsOnly ''01'' ds))
      | _ \<Rightarrow> False)"

definition isNaNString :: "string \<Rightarrow> bool" where
  "isNaNString s =
     (let t = trim s
      in \<not> (t = [] \<or> nonDecimalIntegerLiteral t \<or> unsignedDecimalLiteral (dropSign t)))"

text \<open>
  \<open>complex.test\<close> is the module's function \<open>test\<close>:
  \<^verbatim>\<open>isNaN(v) && typeof v === 'string' && (v.match(floatRegex)?.length || 0) + (v.match(colorRegex)?.length || 0) > 0\<close>.
  The module neither declares nor imports \<open>floatRegex\<close> and \<open>colorRegex\<close>: for a string that
  is not numeric the evaluation reaches \<open>floatRegex\<close> and throws; for a numeric string it
  stops at \<open>isNaN(v)\<close> and gives \<open>false\<close>.
\<close>

definition complexTest :: "string \<Rightarrow> error + bool" where
  "complexTest s =
     (if isNaNString s then Inl (ReferenceError ''floatRegex is not defined'') else Inr False)"

definition isAnimatable :: "jsval \<Rightarrow> string option \<Rightarrow> error + bool" where
  "isAnimatable v nm =
     (if nm = Some ''zIndex'' then Inr False
      else case v of
             Num x \<Rightarrow> Inr True
           | Str s \<Rightarrow>
               (case complexTest s of
                  Inl e \<Rightarrow> Inl e
                | Inr t \<Rightarrow> Inr ((t \<or> s = ''0'') \<and> \<not> startsWith s ''url(''))
           | Null \<Rightarrow> Inr False
           | Undefined \<Rightarrow> Inr False)"

text \<open>An array read out of range gives \<open>undefined\<close>.\<close>

definition elementAt :: "jsval list \<Rightarrow> int \<Rightarrow> jsval" where
  "elementAt xs i = (if 0 \<le> i \<and> i < int (length xs) then xs ! nat i else Undefined)"

definition hasKeyframesChanged :: "jsval list \<Rightarrow> bool" where
  "hasKeyframesChanged ks = (length ks = 1 \<or> (\<exists>k \<in> set ks. k \<noteq> elementAt ks 0))"

definition canAnimate ::
  "jsval list \<Rightarrow> string option \<Rightarrow> AnimationGeneratorType \<Rightarrow> real option \<Rightarrow> error + bool" where
  "canAnimate ks nm ty vel =
     (let originKeyframe = elementAt ks 0
      in if originKeyframe = Null then Inr False
         else if nm = Some ''display'' \<or> nm = Some ''visibility'' then Inr True
         else (let targetKeyframe = elementAt ks (int (length ks) - 1)
               in case isAnimatable originKeyframe nm of
                    Inl e \<Rightarrow> Inl e
                  | Inr isOriginAnimatable \<Rightarrow>
                      (case isAnimatable targetKeyframe nm of
                         Inl e \<Rightarrow> Inl e
                       | Inr isTargetAnimatable \<Rightarrow>
                           if \<not> isOriginAnimatable \<or> \<not> isTargetAnimatable then Inr False
                           else Inr (hasKeyframesChanged ks
                                     \<or> ((ty = Spring \<or> ty = GeneratorFunction)
                                         \<and> (case vel of None \<Rightarrow> False | Some v \<Rightarrow> v \<noteq> 0))))))"

definition getFinalKeyframe :: "jsval list \<Rightarrow> nat \<Rightarrow> RepeatType \<Rightarrow> jsval \<Rightarrow> jsval" where
  "getFinalKeyframe ks rep repType final =
     (let resolvedKs = filter (\<lambda>v. v \<noteq> Null) ks;
          index = (if rep \<noteq> 0 \<and> repType \<noteq> Loop \<and> rep mod 2 = 1 then 0
                   else int (length resolvedKs) - 1)
      in if index = 0 \<or> final = Undefined then elementAt resolvedKs index else final)"

subsection \<open>Keyframe resolution of a controller\<close>

text \<open>
  \<open>onKeyframesResolved\<close> ends with \<open>this.initPlayback(keyframes, finalKeyframe)\<close>.
  \<open>BaseAnimation\<close> declares \<open>initPlayback\<close> abstract, and \<open>MainThreadAnimation\<close> defines only
  the private method \<open>#initPlayback\<close>, which is a different name: the object has no
  property \<open>initPlayback\<close>, and the call throws. Nothing calls \<open>#initPlayback\<close>, so
  \<open>_resolved\<close> is never assigned and \<open>onPostResolved\<close> never runs.
\<close>

definition initPlaybackCall :: error where
  "initPlaybackCall = TypeError ''this.initPlayback is not a function''"

definition onKeyframesResolved ::
  "jsval list \<Rightarrow> jsval \<Rightarrow> real \<Rightarrow> MainThreadAnimation \<Rightarrow> error option \<times> MainThreadAnimation" where
  "onKeyframesResolved ks final now a =
     (let a1 = a\<lparr> resolvedAt := Some now, hasAttemptedResolve := True \<rparr>;
          opts = options a1
      in case (if isGenerator opts then Inr True
               else canAnimate ks (name opts) (generatorType opts) (velocity opts)) of
           Inl e \<Rightarrow> (Some e, a1)
         | Inr animatable \<Rightarrow>
             if \<not> animatable
             then (if instantAnimationState \<or> delay opts = 0
                   then (let a2 = invokeCallback (onUpdate opts)
                                    (OnUpdate (getFinalKeyframe ks (repeat opts) (repeatType opts) final)) a1;
                             a3 = invokeCallback (onComplete opts) OnComplete a2
                         in (None, resolveFinishedPromise a3))
                   else (Some initPlaybackCall, a1\<lparr> options := opts\<lparr> duration := Some 0 \<rparr> \<rparr>))
             else (Some initPlaybackCall, a1))"

text \<open>
  \<open>resolver.complete()\<close> for the resolver of a controller, whose completion callback is
  \<open>onKeyframesResolved\<close>.
\<close>

definition completeResolver :: "real \<Rightarrow> MainThreadAnimation \<Rightarrow> error option \<times> MainThreadAnimation" where
  "completeResolver now a =
     (let r = resolver a;
          r1 = r\<lparr> isComplete := True,
                  completions := completions r @ [(unresolvedKeyframes r, finalKeyframe r)] \<rparr>
      in case onKeyframesResolved (unresolvedKeyframes r) (finalKeyframe r) now (a\<lparr> resolver := r1 \<rparr>) of
           (Some e, a') \<Rightarrow> (Some e, a')
         | (None, a') \<Rightarrow> (None, a'\<lparr> resolver := (resolver a')\<lparr> inToResolve := False \<rparr> \<rparr>))"

definition scheduleResolveOf :: "real \<Rightarrow> MainThreadAnimation \<Rightarrow> error option \<times> MainThreadAnimation" where
  "scheduleResolveOf now a =
     (let r1 = (resolver a)\<lparr> isScheduled := True \<rparr>
      in if isAsync r1
         then (None, a\<lparr> resolver := r1\<lparr> inToResolve := True, flushScheduled := True \<rparr> \<rparr>)
         else (case readKeyframes now r1 of
                 (Some e, r2) \<Rightarrow> (Some e, a\<lparr> resolver := r2 \<rparr>)
               | (None, r2) \<Rightarrow> completeResolver now (a\<lparr> resolver := r2 \<rparr>)))"

definition resumeResolver :: "real \<Rightarrow> MainThreadAnimation \<Rightarrow> error option \<times> MainThreadAnimation" where
  "resumeResolver now a =
     (if \<not> isComplete (resolver a) then scheduleResolveOf now a else (None, a))"

text \<open>
  \<open>flushKeyframeResolvers()\<close>, as far as it concerns this controller's resolver:
  \<open>readAllKeyframes\<close> reads it if it is in \<open>toResolve\<close>; \<open>measureAllKeyframes\<close> clears the
  module's \<open>isScheduled\<close>, completes it, and clears the set.
\<close>

definition flushKeyframeResolvers :: "real \<Rightarrow> MainThreadAnimation \<Rightarrow> error option \<times> MainThreadAnimation" where
  "flushKeyframeResolvers now a =
     (if inToResolve (resolver a)
      then (case readKeyframes now (resolver a) of
              (Some e, r1) \<Rightarrow> (Some e, a\<lparr> resolver := r1 \<rparr>)
            | (None, r1) \<Rightarrow>
                (case completeResolver now (a\<lparr> resolver := r1\<lparr> flushScheduled := False \<rparr> \<rparr>) of
                   (Some e, a') \<Rightarrow> (Some e, a')
                 | (None, a') \<Rightarrow> (None, a'\<lparr> resolver := (resolver a')\<lparr> inToResolve := False \<rparr> \<rparr>)))
      else (None, a\<lparr> resolver := (resolver a)\<lparr> flushScheduled := False \<rparr> \<rparr>))"

text \<open>
  \<open>new MainThreadAnimation(options)\<close> at clock reading \<open>now\<close>. The resolver class is
  \<open>element?.KeyframeResolver || KeyframeResolver\<close>; an element's own resolver class is
  modelled by its asynchronous scheduling only.
\<close>

definition newMainThreadAnimation ::
  "real \<Rightarrow> ValueAnimationOptions \<Rightarrow> error option \<times> MainThreadAnimation" where
  "newMainThreadAnimation now given =
     (let opts = withDefaults given;
          async = (case element opts of None \<Rightarrow> False | Some el \<Rightarrow> bringsAsyncResolver el);
          a = \<lparr> options = opts, isStopped = False, resolved = None, hasAttemptedResolve = False,
                resolver = newKeyframeResolver (keyframeValues opts) (name opts) (optionsMotionValue opts)
                             (element opts) async,
                createdAt = now, resolvedAt = None, driver = None, holdTime = None,
                cancelTime = None, currentTime = 0, playbackSpeed = 1,
                pendingPlayState = Running, startTime = None, playState = Idle,
                promises = [False], callbacks = [] \<rparr>
      in scheduleResolveOf now a)"

subsection \<open>Playback methods\<close>

text \<open>
  \<open>play\<close> reads \<open>const { driver = frameloopDriver, ... } = this.options\<close>; the module neither
  declares nor imports \<open>frameloopDriver\<close>, so the default throws when no driver was passed.
  \<open>stop\<close>, \<open>finish\<close> and \<open>cancel\<close> call \<open>this.teardown()\<close>, but the class defines only the private
  \<open>#teardown\<close>: the call throws. \<open>complete\<close>, \<open>finish\<close> and \<open>onPostResolved\<close> assign
  \<open>this.state.current\<close>, but \<open>state\<close> holds a string: in strict mode (a class body) creating
  a property on a string throws.
\<close>

definition teardownCall :: error where
  "teardownCall = TypeError ''this.teardown is not a function''"

definition stateCurrentAssignment :: error where
  "stateCurrentAssignment = TypeError ''cannot create property current on a string (this.state)''"

definition frameloopDriverReference :: error where
  "frameloopDriverReference = ReferenceError ''frameloopDriver is not defined''"

definition play :: "real \<Rightarrow> MainThreadAnimation \<Rightarrow> error option \<times> MainThreadAnimation" where
  "play now a =
     (case (if \<not> isScheduled (resolver a) then resumeResolver now a else (None, a)) of
        (Some e, a1) \<Rightarrow> (Some e, a1)
      | (None, a1) \<Rightarrow>
          if resolved a1 = None then (None, a1\<lparr> pendingPlayState := Running \<rparr>)
          else if isStopped a1 then (None, a1)
          else if \<not> driverOption (options a1) then (Some frameloopDriverReference, a1)
          else (let a2 = (if driver a1 = None then a1\<lparr> driver := Some False \<rparr> else a1);
                    a3 = invokeCallback (onPlay (options a2)) OnPlay a2;
                    a4 = (case holdTime a3 of
                            Some h \<Rightarrow> a3\<lparr> startTime := Some (now - h) \<rparr>
                          | None \<Rightarrow>
                              if startTime a3 = None \<or> startTime a3 = Some 0
                              then a3\<lparr> startTime := Some (case startTimeOption (options a3) of
                                                             Some s \<Rightarrow> s | None \<Rightarrow> calcStartTime a3) \<rparr>
                              else if playState a3 = Finished then a3\<lparr> startTime := Some now \<rparr>
                              else a3);
                    a5 = (if playState a4 = Finished then updateFinishedPromise a4 else a4)
                in (None, a5\<lparr> cancelTime := startTime a5, holdTime := None,
                              playState := Running, driver := Some True \<rparr>)))"

definition pause :: "MainThreadAnimation \<Rightarrow> MainThreadAnimation" where
  "pause a =
     (if resolved a = None then a\<lparr> pendingPlayState := Paused \<rparr>
      else a\<lparr> playState := Paused, holdTime := Some (currentTime a) \<rparr>)"

definition stop :: "MainThreadAnimation \<Rightarrow> error option \<times> MainThreadAnimation" where
  "stop a =
     (let a1 = a\<lparr> resolver := resolverCancel (resolver a), isStopped := True \<rparr>
      in if playState a1 = Idle then (None, a1)
         else (Some teardownCall, a1))"

definition animationComplete :: "real \<Rightarrow> MainThreadAnimation \<Rightarrow> error option \<times> MainThreadAnimation" where
  "animationComplete now a =
     (case (if playState a \<noteq> Running then play now a else (None, a)) of
        (Some e, a1) \<Rightarrow> (Some e, a1)
      | (None, a1) \<Rightarrow> (Some stateCurrentAssignment, a1))"

definition finish :: "MainThreadAnimation \<Rightarrow> error option \<times> MainThreadAnimation" where
  "finish a = (Some teardownCall, a)"

subsection \<open>\<open>tick\<close>\<close>

text \<open>\<open>x % 1.0\<close>: the remainder has the sign of the dividend.\<close>

definition remainderOne :: "real \<Rightarrow> real" where
  "remainderOne x = x - of_int (if 0 \<le> x then \<lfloor>x\<rfloor> else \<lceil>x\<rceil>)"

text \<open>
  The block \<open>if (repeat) { ... }\<close> of \<open>tick\<close>: the iteration index, whether the mirrored
  generator is taken, and the elapsed time handed to the generator. (A division by a
  zero \<open>resolvedDuration\<close> gives \<open>NaN\<close> or an infinity in the source and 0 here; the
  statements below take \<open>resolvedDuration\<close> positive.)
\<close>

record RepeatResult =
  currentIteration :: int
  useMirroredGenerator :: bool
  elapsed :: real

definition repeatBlock :: "real \<Rightarrow> real \<Rightarrow> real \<Rightarrow> nat \<Rightarrow> RepeatType \<Rightarrow> real \<Rightarrow> RepeatResult" where
  "repeatBlock curTime totalDur resolvedDur rep repType repDelay =
     (let progress = min curTime totalDur / resolvedDur;
          iteration0 = \<lfloor>progress\<rfloor>;
          iterationProgress0 = remainderOne progress;
          iterationProgress1 = (if iterationProgress0 = 0 \<and> progress \<ge> 1 then 1 else iterationProgress0);
          iteration1 = (if iterationProgress1 = 1 then iteration0 - 1 else iteration0);
          iteration = min iteration1 (int rep + 1);
          isOddIteration = (iteration mod 2 \<noteq> 0);
          iterationProgress2 =
            (if isOddIteration \<and> repType = Reverse
             then (let p = 1 - iterationProgress1
                   in if repDelay \<noteq> 0 then p - repDelay / resolvedDur else p)
             else iterationProgress1)
      in \<lparr> currentIteration = iteration,
           useMirroredGenerator = (isOddIteration \<and> repType = Mirror),
           elapsed = clamp 0 1 iterationProgress2 * resolvedDur \<rparr>)"

definition mirroredGeneratorMissing :: error where
  "mirroredGeneratorMissing = TypeError ''cannot read property next of undefined (mirroredGenerator)''"

text \<open>
  \<open>tick(timestamp, sample = false)\<close>: the error if it throws, the iterator result if it
  returns, and the controller.
\<close>

definition tick ::
  "real \<Rightarrow> bool \<Rightarrow> real \<Rightarrow> MainThreadAnimation \<Rightarrow> error option \<times> AnimationState option \<times> MainThreadAnimation" where
  "tick tickTimestamp sample now a =
     (case (if resolved a = None \<and> \<not> hasAttemptedResolve a then flushKeyframeResolvers now a else (None, a)) of
        (Some e, a0) \<Rightarrow> (Some e, None, a0)
      | (None, a0) \<Rightarrow>
     (case resolved a0 of
        None \<Rightarrow>
          (None, Some \<lparr> sampleDone = True,
                        sampleValue = elementAt (keyframeValues (options a0))
                                        (int (length (keyframeValues (options a0))) - 1) \<rparr>, a0)
      | Some rd \<Rightarrow>
     (case startTime a0 of
        None \<Rightarrow> (None, Some (generator rd 0), a0)
      | Some st \<Rightarrow>
          (let opts = options a0;
               speed = playbackSpeed a0;
               st1 = (if speed > 0 then min st tickTimestamp
                      else if speed < 0 then min (tickTimestamp - totalDuration rd / speed) st
                      else st);
               t0 = (if sample then tickTimestamp
                     else case holdTime a0 of
                            Some h \<Rightarrow> h
                          | None \<Rightarrow> of_int (round (tickTimestamp - st1)) * speed);
               timeWithoutDelay = t0 - delay opts * (if speed \<ge> 0 then 1 else - 1);
               isInDelayPhase = (if speed \<ge> 0 then timeWithoutDelay < 0
                                 else timeWithoutDelay > totalDuration rd);
               t1 = max timeWithoutDelay 0;
               t2 = (if playState a0 = Finished \<and> holdTime a0 = None then totalDuration rd else t1);
               a1 = a0\<lparr> startTime := Some st1, currentTime := t2 \<rparr>;
               rep = (if repeat opts \<noteq> 0
                      then repeatBlock t2 (totalDuration rd) (resolvedDuration rd) (repeat opts)
                             (repeatType opts) (repeatDelay opts)
                      else \<lparr> currentIteration = 0, useMirroredGenerator = False, elapsed = t2 \<rparr>);
               frameGenerator = (if useMirroredGenerator rep then mirroredGenerator rd
                                 else Some (generator rd))
           in if \<not> isInDelayPhase \<and> frameGenerator = None then (Some mirroredGeneratorMissing, None, a1)
              else
               (let state0 = (if isInDelayPhase
                              then \<lparr> sampleDone = False, sampleValue = elementAt (resolvedKeyframes rd) 0 \<rparr>
                              else (the frameGenerator) (elapsed rep));
                    state1 = (case mapPercentToKeyframes rd of
                                None \<Rightarrow> state0
                              | Some f \<Rightarrow> state0\<lparr> sampleValue := f (sampleValue state0) \<rparr>);
                    isDone = (if \<not> isInDelayPhase \<and> calculatedDuration rd \<noteq> None
                              then (if speed \<ge> 0 then t2 \<ge> totalDuration rd else t2 \<le> 0)
                              else sampleDone state1);
                    isAnimationFinished =
                      (holdTime a1 = None \<and> (playState a1 = Finished \<or> (playState a1 = Running \<and> isDone)));
                    state2 = (if isAnimationFinished \<and> resolvedFinalKeyframe rd \<noteq> Undefined
                              then state1\<lparr> sampleValue := getFinalKeyframe (resolvedKeyframes rd)
                                     (repeat opts) (repeatType opts) (resolvedFinalKeyframe rd) \<rparr>
                              else state1);
                    a2 = invokeCallback (onUpdate opts) (OnUpdate (sampleValue state2)) a1
                in if isAnimationFinished
                   then (case finish a2 of
                           (Some e, a3) \<Rightarrow> (Some e, None, a3)
                         | (None, a3) \<Rightarrow> (None, Some state2, a3))
                   else (None, Some state2, a2))))))"

text \<open>\<open>cancel()\<close>\<close>

definition animationCancel :: "real \<Rightarrow> MainThreadAnimation \<Rightarrow> error option \<times> MainThreadAnimation" where
  "animationCancel now a =
     (case (case cancelTime a of
              None \<Rightarrow> (None, a)
            | Some c \<Rightarrow> (case tick c False now a of (e, _, a') \<Rightarrow> (e, a'))) of
        (Some e, a1) \<Rightarrow> (Some e, a1)
      | (None, a1) \<Rightarrow> (Some teardownCall, a1))"

text \<open>Whether the promise that the constructor created (the one a caller awaits) is resolved.\<close>

definition finishedResolved :: "MainThreadAnimation \<Rightarrow> bool" where
  "finishedResolved a = (case promises a of [] \<Rightarrow> False | p # _ \<Rightarrow> p)"

subsection \<open>Concrete controllers used in the statements\<close>

definition noOptions :: ValueAnimationOptions where
  "noOptions =
     \<lparr> autoplayGiven = None, delayGiven = None, typeGiven = None, repeatGiven = None,
       repeatDelayGiven = None, repeatTypeGiven = None, keyframesGiven = [],
       nameGiven = None, velocityGiven = None, durationGiven = None, easeGiven = None,
       timesGiven = None, isGeneratorGiven = False, startTimeGiven = None, driverGiven = False,
       motionValueGiven = None, elementGiven = None,
       onUpdateGiven = False, onPlayGiven = False, onCompleteGiven = False, onStopGiven = False \<rparr>"

text \<open>\<open>{ keyframes: [0, 100], type: 'tween', duration: 200, ease: 'linear' }\<close>\<close>

definition scenarioA :: ValueAnimationOptions where
  "scenarioA = noOptions\<lparr> keyframesGiven := [Num 0, Num 100], typeGiven := Some Tween,
                           durationGiven := Some 200, easeGiven := Some Linear \<rparr>"

text \<open>An element whose resolver class resolves asynchronously and that reads no value.\<close>

definition deferringElement :: Element where
  "deferringElement = \<lparr> readValue = (\<lambda>key target. Undefined), bringsAsyncResolver = True \<rparr>"

text \<open>\<open>{ keyframes: [0, 100], name: 'x', element }\<close> with that element.\<close>

definition deferredOptions :: ValueAnimationOptions where
  "deferredOptions = noOptions\<lparr> keyframesGiven := [Num 0, Num 100], nameGiven := Some ''x'',
                                 elementGiven := Some deferringElement \<rparr>"

text \<open>\<open>{ keyframes: [0, 100], name: 'zIndex', onUpdate, onComplete }\<close>: \<open>isAnimatable\<close>
  refuses the name \<open>zIndex\<close>, so the keyframes count as unanimatable.\<close>

definition unanimatableOptions :: ValueAnimationOptions where
  "unanimatableOptions = noOptions\<lparr> keyframesGiven := [Num 0, Num 100], nameGiven := Some ''zIndex'',
                                     onUpdateGiven := True, onCompleteGiven := True \<rparr>"

text \<open>The same options on an element whose resolver defers.\<close>

definition deferredUnanimatable :: ValueAnimationOptions where
  "deferredUnanimatable = unanimatableOptions\<lparr> elementGiven := Some deferringElement \<rparr>"

text \<open>\<open>{ keyframes: ['none', 'block'] }\<close>\<close>

definition stringOptions :: ValueAnimationOptions where
  "stringOptions = noOptions\<lparr> keyframesGiven := [Str ''none'', Str ''block''] \<rparr>"

text \<open>
  Scenario C:
  \<open>{ keyframes: [0, 100], type: 'tween', duration: 100, ease: 'linear', repeat: 2, repeatType: 'reverse' }\<close>
\<close>

definition scenarioC :: ValueAnimationOptions where
  "scenarioC = noOptions\<lparr> keyframesGiven := [Num 0, Num 100], typeGiven := Some Tween,
                           durationGiven := Some 100, easeGiven := Some Linear,
                           repeatGiven := Some 2, repeatTypeGiven := Some Reverse \<rparr>"

section \<open>Properties of the render batcher\<close>

lemma batchEvent_frameState:
  "delta (frameState (batchEvent ev b)) = delta (frameState b)"
  by (cases ev) (simp_all add: wake_def Let_def)

lemma fold_batchEvent_delta:
  "delta (frameState (fold batchEvent evs b)) = delta (frameState b)"
  by (induction evs arbitrary: b) (simp_all add: batchEvent_frameState)

lemma processBatch_delta:
  "delta (frameState (processBatch m now ka evs b)) = delta (broadcastFrame m now b)"
  by (simp add: processBatch_def broadcastFrame_def Let_def fold_batchEvent_delta)

lemma fold_batchEvent_requests:
  "frameIsProcessing (frameState b) \<Longrightarrow>
     batchesRequested (fold batchEvent evs b) = batchesRequested b \<and>
     frameIsProcessing (frameState (fold batchEvent evs b))"
proof (induction evs arbitrary: b)
  case Nil
  then show ?case by simp
next
  case (Cons ev evs)
  have "frameIsProcessing (frameState (batchEvent ev b))"
    and "batchesRequested (batchEvent ev b) = batchesRequested b"
    using Cons.prems by (cases ev; simp add: wake_def Let_def)+
  then show ?case using Cons.IH by simp
qed

lemma processBatch_follow_up:
  assumes "batchesRequested (processBatch m now ka evs b) > batchesRequested b"
  shows "\<not> useDefaultElapsed (processBatch m now ka evs b)"
proof -
  let ?b2 = "b\<lparr> runNextFrame := False,
                 frameState := \<lparr> delta = (if useDefaultElapsed b then 1000 / 60
                     else max (min ((if m then timestamp (frameState b) else now) - timestamp (frameState b)) maxElapsed) 1),
                   timestamp = (if m then timestamp (frameState b) else now),
                   frameIsProcessing = True \<rparr> \<rparr>"
  have "batchesRequested (fold batchEvent evs ?b2) = batchesRequested b"
    using fold_batchEvent_requests [of ?b2 evs] by simp
  with assms show ?thesis
    by (simp add: processBatch_def Let_def split: if_splits)
qed

lemma broadcast_measured:
  "\<not> useDefaultElapsed b \<Longrightarrow>
     1 \<le> delta (broadcastFrame m now b) \<and> delta (broadcastFrame m now b) \<le> 40"
  by (simp add: broadcastFrame_def Let_def maxElapsed_def)

lemma runFrames_measured:
  "\<not> useDefaultElapsed b \<Longrightarrow> g \<in> set (runFrames m ka fs b) \<Longrightarrow> 1 \<le> delta g \<and> delta g \<le> 40"
proof (induction fs arbitrary: b)
  case Nil
  then show ?case by simp
next
  case (Cons f fs)
  obtain now evs where f: "f = (now, evs)" by (cases f)
  show ?case
  proof (cases "g = frameState (processBatch m now ka evs b)")
    case True
    then show ?thesis
      using broadcast_measured [OF Cons.prems(1), of m now] by (simp add: processBatch_delta)
  next
    case False
    with Cons.prems(2) f
    have req: "batchesRequested (processBatch m now ka evs b) > batchesRequested b"
      and mem: "g \<in> set (runFrames m ka fs (processBatch m now ka evs b))"
      by (auto simp: Let_def split: if_splits)
    show ?thesis
      using Cons.IH [OF processBatch_follow_up [OF req] mem] .
  qed
qed

text \<open>
  C10. In a wake cycle the first batch broadcasts the nominal delta \<open>1000 / 60\<close>; every
  later batch of the cycle broadcasts a measured delta clamped into \<open>[1, 40]\<close>. So the
  delta of a processed frame is positive, and \<open>velocityPerSecond\<close> over it takes the
  division branch, not the zero-duration fallback.
\<close>

theorem wake_cycle_delta:
  assumes "runFrames m ka fs (wake b) = f # rest"
  shows "delta f = 1000 / 60
       \<and> (\<forall>g \<in> set rest. 1 \<le> delta g \<and> delta g \<le> 40)
       \<and> (\<forall>g \<in> set (f # rest). 0 < delta g \<and> velocityPerSecond v (delta g) = v * (1000 / delta g))"
proof -
  obtain now evs fs' where fs: "fs = (now, evs) # fs'"
    using assms by (cases fs) auto
  have f: "f = frameState (processBatch m now ka evs (wake b))"
    using assms fs by (simp add: Let_def)
  have first: "delta f = 1000 / 60"
    unfolding f by (simp add: processBatch_delta broadcastFrame_def wake_def Let_def)
  have later: "1 \<le> delta g \<and> delta g \<le> 40" if "g \<in> set rest" for g
  proof -
    from assms fs that
    have req: "batchesRequested (processBatch m now ka evs (wake b)) > batchesRequested (wake b)"
      and mem: "g \<in> set (runFrames m ka fs' (processBatch m now ka evs (wake b)))"
      by (auto simp: Let_def split: if_splits)
    show ?thesis
      using runFrames_measured [OF processBatch_follow_up [OF req] mem] .
  qed
  have pos: "0 < delta g" if "g \<in> set (f # rest)" for g
    using that first later by (cases "g = f") force+
  have vel: "velocityPerSecond v (delta g) = v * (1000 / delta g)" if "g \<in> set (f # rest)" for g
    using pos [OF that] by (simp add: velocityPerSecond_def)
  show ?thesis using first later pos vel by blast
qed

theorem wake_cycle_delta_witness:
  "runFrames False True [(100, [FlagRunNextFrame]), (100, [ScheduleCall]), (1000, [])] (wake createRenderBatcher)
     = [\<lparr> delta = 1000 / 60, timestamp = 100, frameIsProcessing = False \<rparr>,
        \<lparr> delta = 1, timestamp = 100, frameIsProcessing = False \<rparr>,
        \<lparr> delta = 40, timestamp = 1000, frameIsProcessing = False \<rparr>]
   \<and> velocityPerSecond 3 (1 :: real) = 3 * (1000 / 1)"
proof -
  have run: "runFrames False True [(100, [FlagRunNextFrame]), (100, [ScheduleCall]), (1000, [])] (wake createRenderBatcher)
     = [\<lparr> delta = 1000 / 60, timestamp = 100, frameIsProcessing = False \<rparr>,
        \<lparr> delta = 1, timestamp = 100, frameIsProcessing = False \<rparr>,
        \<lparr> delta = 40, timestamp = 1000, frameIsProcessing = False \<rparr>]"
    by (simp add: wake_def createRenderBatcher_def processBatch_def
        maxElapsed_def Let_def)
  from wake_cycle_delta [OF run, of 3] show ?thesis
    using run by simp
qed

section \<open>Properties of a phase queue\<close>

lemma plain_quiet: "plain a \<Longrightarrow> quiet a"
  by (cases a) simp_all

lemma actEffect_keeps:
  "quiet a \<Longrightarrow> isProcessing s \<Longrightarrow>
     thisFrame (actEffect a s) = thisFrame s \<and> isProcessing (actEffect a s)
     \<and> invoked (actEffect a s) = invoked s \<and> passes (actEffect a s) = passes s"
  by (cases a) (simp_all add: schedule_def cancel_def Let_def)

lemma fold_actEffect_keeps:
  "\<forall>a \<in> set acts. quiet a \<Longrightarrow> isProcessing s \<Longrightarrow>
     thisFrame (fold actEffect acts s) = thisFrame s \<and> isProcessing (fold actEffect acts s)
     \<and> invoked (fold actEffect acts s) = invoked s \<and> passes (fold actEffect acts s) = passes s"
proof (induction acts arbitrary: s)
  case Nil
  then show ?case by simp
next
  case (Cons a acts)
  from Cons.prems have qa: "quiet a" and rest: "\<forall>a \<in> set acts. quiet a" by simp_all
  note k = actEffect_keeps [OF qa Cons.prems(2)]
  from Cons.IH [OF rest, of "actEffect a s"] k show ?case by simp
qed

lemma process_nested:
  "isProcessing s \<Longrightarrow>
     process (Suc n) body fd s = Some (s\<lparr> latestFrameData := fd, flushNextFrame := True \<rparr>)"
  by (simp add: Let_def)

lemma runCallbackBody_quiet:
  "\<forall>a \<in> set acts. quiet a \<Longrightarrow> isProcessing s \<Longrightarrow> length acts + 1 < n \<Longrightarrow>
     runCallbackBody n body acts s = Some (fold actEffect acts s)"
proof (induction acts arbitrary: s n)
  case Nil
  then obtain m where "n = Suc m" by (cases n) auto
  then show ?case by simp
next
  case (Cons a acts)
  from Cons.prems(3) obtain m where n: "n = Suc m" and m: "length acts + 1 < m"
    by (cases n) auto
  from m obtain k where mk: "m = Suc k" by (cases m) auto
  from Cons.prems have qa: "quiet a" and rest: "\<forall>a \<in> set acts. quiet a" by simp_all
  have keep: "isProcessing (actEffect a s)"
    using actEffect_keeps [OF qa Cons.prems(2)] by simp
  have ih: "runCallbackBody m body acts (actEffect a s) = Some (fold actEffect acts (actEffect a s))"
    using Cons.IH [OF rest keep m] .
  show ?case
  proof (cases a)
    case (Schedule cb ka imm)
    then show ?thesis using ih n by simp
  next
    case (Cancel cb)
    then show ?thesis using ih n by simp
  next
    case (ProcessStep fd)
    have "process m body fd s = Some (s\<lparr> latestFrameData := fd, flushNextFrame := True \<rparr>)"
      unfolding mk using process_nested [OF Cons.prems(2)] .
    then show ?thesis using ih n ProcessStep by simp
  qed
qed

lemma callbackEffect_keeps:
  assumes "\<forall>a \<in> set (body c). quiet a" "isProcessing s"
  shows "thisFrame (callbackEffect body c s) = thisFrame s \<and> isProcessing (callbackEffect body c s)
     \<and> invoked (callbackEffect body c s) = invoked s @ [(c, latestFrameData s)]
     \<and> passes (callbackEffect body c s) = passes s"
proof -
  let ?s1 = "(if c \<in> toKeepAlive s
                then (schedule c False False s)\<lparr> runNextFrameCalls := runNextFrameCalls s + 1 \<rparr>
                else s)"
  let ?s2 = "?s1\<lparr> invoked := invoked ?s1 @ [(c, latestFrameData ?s1)] \<rparr>"
  have a: "isProcessing ?s2" "thisFrame ?s2 = thisFrame s"
    "invoked ?s2 = invoked s @ [(c, latestFrameData s)]" "passes ?s2 = passes s"
    using assms(2) by (simp_all add: schedule_def Let_def)
  have "thisFrame (fold actEffect (body c) ?s2) = thisFrame ?s2 \<and> isProcessing (fold actEffect (body c) ?s2)
     \<and> invoked (fold actEffect (body c) ?s2) = invoked ?s2 \<and> passes (fold actEffect (body c) ?s2) = passes ?s2"
    using assms(1) a(1) by (rule fold_actEffect_keeps)
  with a show ?thesis by (simp add: callbackEffect_def Let_def)
qed

lemma triggerCallback_quiet:
  assumes "\<forall>a \<in> set (body c). quiet a" "isProcessing s" "length (body c) + 2 < n"
  shows "triggerCallback n body c s = Some (callbackEffect body c s)"
proof -
  from assms(3) obtain m where n: "n = Suc m" and m: "length (body c) + 1 < m"
    by (cases n) auto
  let ?s1 = "(if c \<in> toKeepAlive s
                then (schedule c False False s)\<lparr> runNextFrameCalls := runNextFrameCalls s + 1 \<rparr>
                else s)"
  let ?s2 = "?s1\<lparr> invoked := invoked ?s1 @ [(c, latestFrameData ?s1)] \<rparr>"
  have a: "isProcessing ?s2" using assms(2) by (simp add: schedule_def Let_def)
  have "runCallbackBody m body (body c) ?s2 = Some (fold actEffect (body c) ?s2)"
    using assms(1) a m by (rule runCallbackBody_quiet)
  then show ?thesis unfolding n by (simp add: callbackEffect_def Let_def)
qed

lemma forEachThisFrame_quiet:
  assumes "\<forall>c \<in> set (thisFrame s). (\<forall>a \<in> set (body c). quiet a) \<and> length (body c) \<le> K"
      and "isProcessing s"
      and "length (thisFrame s) - i + K + 3 < n"
  shows "forEachThisFrame n body i s = Some (fold (callbackEffect body) (drop i (thisFrame s)) s)"
  using assms
proof (induction "length (thisFrame s) - i" arbitrary: i s n)
  case 0
  then obtain m where "n = Suc m" by (cases n) auto
  with 0 show ?case by simp
next
  case (Suc d)
  from Suc.prems(3) obtain m where n: "n = Suc m" by (cases n) auto
  from Suc.hyps(2) have i: "i < length (thisFrame s)" by simp
  let ?c = "thisFrame s ! i"
  have cin: "?c \<in> set (thisFrame s)" using i by simp
  with Suc.prems(1) have q: "\<forall>a \<in> set (body ?c). quiet a" and len: "length (body ?c) \<le> K" by auto
  have fuel: "length (body ?c) + 2 < m" using Suc.prems(3) len n by simp
  have trig: "triggerCallback m body ?c s = Some (callbackEffect body ?c s)"
    using q Suc.prems(2) fuel by (rule triggerCallback_quiet)
  have keep: "thisFrame (callbackEffect body ?c s) = thisFrame s \<and> isProcessing (callbackEffect body ?c s)"
    using callbackEffect_keeps [of body ?c s] q Suc.prems(2) by simp
  let ?s' = "callbackEffect body ?c s"
  have tf: "thisFrame ?s' = thisFrame s" using keep by simp
  have d: "d = length (thisFrame ?s') - Suc i" using Suc.hyps(2) tf by simp
  have p1: "\<forall>c \<in> set (thisFrame ?s'). (\<forall>a \<in> set (body c). quiet a) \<and> length (body c) \<le> K"
    using Suc.prems(1) tf by simp
  have p2: "isProcessing ?s'" using keep by simp
  have p3: "length (thisFrame ?s') - Suc i + K + 3 < m" using Suc.prems(3) n tf i by simp
  have ih: "forEachThisFrame m body (Suc i) ?s' = Some (fold (callbackEffect body) (drop (Suc i) (thisFrame ?s')) ?s')"
    using Suc.hyps(1) [OF d p1 p2 p3] .
  have dr: "drop i (thisFrame s) = ?c # drop (Suc i) (thisFrame s)"
    using i by (simp add: Cons_nth_drop_Suc)
  show ?case
    unfolding n using i trig ih tf dr by simp
qed

lemma actEffect_flush_mono:
  "flushNextFrame s \<Longrightarrow> flushNextFrame (actEffect a s)"
  by (cases a) (simp_all add: schedule_def cancel_def Let_def)

lemma fold_actEffect_flush_mono:
  "flushNextFrame s \<Longrightarrow> flushNextFrame (fold actEffect acts s)"
  by (induction acts arbitrary: s) (simp_all add: actEffect_flush_mono)

lemma fold_actEffect_flush_set:
  "ProcessStep fd \<in> set acts \<Longrightarrow> flushNextFrame (fold actEffect acts s)"
proof (induction acts arbitrary: s)
  case Nil
  then show ?case by simp
next
  case (Cons a acts)
  show ?case
  proof (cases "a = ProcessStep fd")
    case True
    then show ?thesis by (simp add: fold_actEffect_flush_mono)
  next
    case False
    with Cons show ?thesis by simp
  qed
qed

lemma fold_actEffect_flush_plain:
  "\<forall>a \<in> set acts. plain a \<Longrightarrow> flushNextFrame (fold actEffect acts s) = flushNextFrame s"
proof (induction acts arbitrary: s)
  case Nil
  then show ?case by simp
next
  case (Cons a acts)
  from Cons.prems have "plain a" by simp
  then have "flushNextFrame (actEffect a s) = flushNextFrame s"
    by (cases a) (simp_all add: schedule_def cancel_def Let_def)
  with Cons show ?case by simp
qed

lemma callbackEffect_flush_mono:
  "flushNextFrame s \<Longrightarrow> flushNextFrame (callbackEffect body c s)"
  by (simp add: callbackEffect_def Let_def schedule_def fold_actEffect_flush_mono)

lemma callbackEffect_flush_set:
  "ProcessStep fd \<in> set (body c) \<Longrightarrow> flushNextFrame (callbackEffect body c s)"
  by (simp add: callbackEffect_def Let_def fold_actEffect_flush_set)

lemma callbackEffect_flush_plain:
  "\<forall>a \<in> set (body c). plain a \<Longrightarrow> flushNextFrame (callbackEffect body c s) = flushNextFrame s"
  by (simp add: callbackEffect_def Let_def schedule_def fold_actEffect_flush_plain)

lemma pass_flush_mono:
  "flushNextFrame s \<Longrightarrow> flushNextFrame (fold (callbackEffect body) q s)"
  by (induction q arbitrary: s) (simp_all add: callbackEffect_flush_mono)

lemma pass_flush_set:
  "c \<in> set q \<Longrightarrow> ProcessStep fd \<in> set (body c) \<Longrightarrow> flushNextFrame (fold (callbackEffect body) q s)"
proof (induction q arbitrary: s)
  case Nil
  then show ?case by simp
next
  case (Cons x q)
  show ?case
  proof (cases "x = c")
    case True
    then show ?thesis
      using Cons.prems(2) by (simp add: pass_flush_mono callbackEffect_flush_set)
  next
    case False
    with Cons show ?thesis by simp
  qed
qed

lemma pass_flush_plain:
  "\<forall>c \<in> set q. \<forall>a \<in> set (body c). plain a \<Longrightarrow>
     flushNextFrame (fold (callbackEffect body) q s) = flushNextFrame s"
  by (induction q arbitrary: s) (simp_all add: callbackEffect_flush_plain)

lemma pass_keeps:
  "\<forall>c \<in> set q. \<forall>a \<in> set (body c). quiet a \<Longrightarrow> isProcessing s \<Longrightarrow>
     isProcessing (fold (callbackEffect body) q s)
     \<and> thisFrame (fold (callbackEffect body) q s) = thisFrame s
     \<and> passes (fold (callbackEffect body) q s) = passes s
     \<and> map fst (invoked (fold (callbackEffect body) q s)) = map fst (invoked s) @ q"
proof (induction q arbitrary: s)
  case Nil
  then show ?case by simp
next
  case (Cons c q)
  from Cons.prems have qc: "\<forall>a \<in> set (body c). quiet a"
    and rest: "\<forall>c \<in> set q. \<forall>a \<in> set (body c). quiet a" by simp_all
  have k: "thisFrame (callbackEffect body c s) = thisFrame s \<and> isProcessing (callbackEffect body c s)
     \<and> invoked (callbackEffect body c s) = invoked s @ [(c, latestFrameData s)]
     \<and> passes (callbackEffect body c s) = passes s"
    using qc Cons.prems(2) by (rule callbackEffect_keeps)
  then have p: "isProcessing (callbackEffect body c s)" by simp
  from Cons.IH [OF rest p] k show ?case by simp
qed

lemma firstPass_alt:
  "firstPass body fd s =
     (fold (callbackEffect body) (nextFrame s) (startPass fd s))\<lparr> isProcessing := False, flushNextFrame := False \<rparr>"
  by (simp add: firstPass_def startPass_def)

lemma bodies_bounded:
  "c \<in> set q \<Longrightarrow> length (body c) \<le> sum_list (map (\<lambda>c. length (body c)) q)"
  by (induction q) auto

lemma process_pass:
  assumes idle: "\<not> isProcessing s"
      and quiet: "\<forall>c \<in> set (nextFrame s). \<forall>a \<in> set (body c). quiet a"
      and fuel: "length (nextFrame s) + sum_list (map (\<lambda>c. length (body c)) (nextFrame s)) + 3 < n"
  shows "process (Suc n) body fd s =
     (if flushNextFrame (fold (callbackEffect body) (nextFrame s) (startPass fd s))
      then process n body fd (firstPass body fd s)
      else Some ((fold (callbackEffect body) (nextFrame s) (startPass fd s))\<lparr> isProcessing := False \<rparr>))"
proof -
  let ?K = "sum_list (map (\<lambda>c. length (body c)) (nextFrame s))"
  let ?s3 = "startPass fd s"
  have tf: "thisFrame ?s3 = nextFrame s" and pr: "isProcessing ?s3"
    by (simp_all add: startPass_def)
  have q3: "\<forall>c \<in> set (thisFrame ?s3). (\<forall>a \<in> set (body c). quiet a) \<and> length (body c) \<le> ?K"
    using quiet bodies_bounded [of _ "nextFrame s" body] unfolding tf by blast
  have f3: "length (thisFrame ?s3) - 0 + ?K + 3 < n" using fuel unfolding tf by simp
  have run: "forEachThisFrame n body 0 ?s3 = Some (fold (callbackEffect body) (drop 0 (thisFrame ?s3)) ?s3)"
    using q3 pr f3 by (rule forEachThisFrame_quiet)
  have s3: "(s\<lparr>latestFrameData := fd, isProcessing := True, passes := Suc (passes s),
               thisFrame := nextFrame s, nextFrame := []\<rparr>) = ?s3"
    by (simp add: startPass_def)
  show ?thesis
    using idle run unfolding tf
    by (simp add: Let_def s3 firstPass_alt)
qed

lemma count_list_distinct_member:
  "distinct q \<Longrightarrow> x \<in> set q \<Longrightarrow> count_list q x = 1"
  by (induction q) auto

lemma firstPass_facts:
  assumes "\<forall>c \<in> set (nextFrame s). \<forall>a \<in> set (body c). quiet a"
  shows "\<not> isProcessing (firstPass body fd s)" "\<not> flushNextFrame (firstPass body fd s)"
    "passes (firstPass body fd s) = passes s + 1"
    "map fst (invoked (firstPass body fd s)) = map fst (invoked s) @ nextFrame s"
proof -
  have pr: "isProcessing (startPass fd s)" by (simp add: startPass_def)
  note k = pass_keeps [OF assms pr]
  show "\<not> isProcessing (firstPass body fd s)" "\<not> flushNextFrame (firstPass body fd s)"
    by (simp_all add: firstPass_alt)
  show "passes (firstPass body fd s) = passes s + 1"
    using k by (simp add: firstPass_alt startPass_def)
  show "map fst (invoked (firstPass body fd s)) = map fst (invoked s) @ nextFrame s"
    using k by (simp add: firstPass_alt startPass_def)
qed

lemma process_single_pass:
  assumes idle: "\<not> isProcessing s" "\<not> flushNextFrame s"
      and plain: "\<forall>c \<in> set (nextFrame s). \<forall>a \<in> set (body c). plain a"
      and fuel: "length (nextFrame s) + sum_list (map (\<lambda>c. length (body c)) (nextFrame s)) + 3 < n"
  shows "process (Suc n) body fd s = Some (firstPass body fd s)"
proof -
  have quiet: "\<forall>c \<in> set (nextFrame s). \<forall>a \<in> set (body c). quiet a"
    using plain plain_quiet by blast
  have nf: "\<not> flushNextFrame (fold (callbackEffect body) (nextFrame s) (startPass fd s))"
    using pass_flush_plain [OF plain, of "startPass fd s"] idle(2) by (simp add: startPass_def)
  have eq: "(fold (callbackEffect body) (nextFrame s) (startPass fd s))\<lparr> isProcessing := False \<rparr>
      = firstPass body fd s"
    using nf by (simp add: firstPass_alt)
  show ?thesis
    using process_pass [OF idle(1) quiet fuel, of fd] nf eq by simp
qed

lemma schedule_keeps_processing:
  "isProcessing (schedule cb ka im s) = isProcessing s" "passes (schedule cb ka im s) = passes s"
  "isProcessing (cancel cb s) = isProcessing s" "passes (cancel cb s) = passes s"
  by (simp_all add: schedule_def cancel_def Let_def)

lemma in_pass_invariant:
  "(\<forall>body fd s s'. isProcessing s \<longrightarrow> process n body fd s = Some s'
        \<longrightarrow> isProcessing s' \<and> passes s' = passes s)
   \<and> (\<forall>body i s s'. isProcessing s \<longrightarrow> forEachThisFrame n body i s = Some s'
        \<longrightarrow> isProcessing s' \<and> passes s' = passes s)
   \<and> (\<forall>body c s s'. isProcessing s \<longrightarrow> triggerCallback n body c s = Some s'
        \<longrightarrow> isProcessing s' \<and> passes s' = passes s)
   \<and> (\<forall>body acts s s'. isProcessing s \<longrightarrow> runCallbackBody n body acts s = Some s'
        \<longrightarrow> isProcessing s' \<and> passes s' = passes s)"
proof (induction n)
  case 0
  show ?case by simp
next
  case (Suc n)
  then have ih1: "\<And>body fd s s'. isProcessing s \<Longrightarrow> process n body fd s = Some s'
        \<Longrightarrow> isProcessing s' \<and> passes s' = passes s"
    and ih2: "\<And>body i s s'. isProcessing s \<Longrightarrow> forEachThisFrame n body i s = Some s'
        \<Longrightarrow> isProcessing s' \<and> passes s' = passes s"
    and ih3: "\<And>body c s s'. isProcessing s \<Longrightarrow> triggerCallback n body c s = Some s'
        \<Longrightarrow> isProcessing s' \<and> passes s' = passes s"
    and ih4: "\<And>body acts s s'. isProcessing s \<Longrightarrow> runCallbackBody n body acts s = Some s'
        \<Longrightarrow> isProcessing s' \<and> passes s' = passes s"
    by blast+
  have p1: "isProcessing s' \<and> passes s' = passes s"
    if "isProcessing s" "process (Suc n) body fd s = Some s'" for body fd and s s' :: Step
    using that by (auto simp: Let_def)
  have p2: "isProcessing s' \<and> passes s' = passes s"
    if a: "isProcessing s" "forEachThisFrame (Suc n) body i s = Some s'" for body i and s s' :: Step
  proof (cases "i < length (thisFrame s)")
    case True
    with a(2) obtain s1 where t: "triggerCallback n body (thisFrame s ! i) s = Some s1"
      and f: "forEachThisFrame n body (Suc i) s1 = Some s'"
      by (auto split: option.splits)
    from ih3 [OF a(1) t] ih2 [OF _ f] show ?thesis by simp
  next
    case False
    with a show ?thesis by simp
  qed
  have p3: "isProcessing s' \<and> passes s' = passes s"
    if a: "isProcessing s" "triggerCallback (Suc n) body c s = Some s'" for body c and s s' :: Step
  proof -
    let ?s1 = "(if c \<in> toKeepAlive s
                then (schedule c False False s)\<lparr> runNextFrameCalls := runNextFrameCalls s + 1 \<rparr>
                else s)"
    let ?s2 = "?s1\<lparr> invoked := invoked ?s1 @ [(c, latestFrameData ?s1)] \<rparr>"
    have k: "isProcessing ?s2" "passes ?s2 = passes s"
      using a(1) by (simp_all add: schedule_keeps_processing)
    have r: "runCallbackBody n body (body c) ?s2 = Some s'"
      using a(2) by (simp add: Let_def)
    from ih4 [OF k(1) r] k(2) show ?thesis by simp
  qed
  have p4: "isProcessing s' \<and> passes s' = passes s"
    if a: "isProcessing s" "runCallbackBody (Suc n) body acts s = Some s'" for body acts and s s' :: Step
  proof (cases acts)
    case Nil
    with a show ?thesis by simp
  next
    case (Cons x xs)
    show ?thesis
    proof (cases x)
      case (Schedule cb ka im)
      with Cons a(2) have r: "runCallbackBody n body xs (schedule cb ka im s) = Some s'" by simp
      have k: "isProcessing (schedule cb ka im s)" using a(1) by (simp add: schedule_keeps_processing)
      from ih4 [OF k r] show ?thesis by (simp add: schedule_keeps_processing)
    next
      case (Cancel cb)
      with Cons a(2) have r: "runCallbackBody n body xs (cancel cb s) = Some s'" by simp
      have k: "isProcessing (cancel cb s)" using a(1) by (simp add: schedule_keeps_processing)
      from ih4 [OF k r] show ?thesis by (simp add: schedule_keeps_processing)
    next
      case (ProcessStep fd)
      with Cons a(2) obtain s1 where q: "process n body fd s = Some s1"
        and r: "runCallbackBody n body xs s1 = Some s'"
        by (auto split: option.splits)
      from ih1 [OF a(1) q] ih4 [OF _ r] show ?thesis by simp
    qed
  qed
  show ?case using p1 p2 p3 p4 by blast
qed

lemma setAdd_distinct: "distinct q \<Longrightarrow> distinct (setAdd x q)"
  by (simp add: setAdd_def)

lemma queues_stay_sets:
  assumes "distinct (thisFrame s)" "distinct (nextFrame s)"
  shows "distinct (thisFrame (schedule cb ka im s)) \<and> distinct (nextFrame (schedule cb ka im s))"
    and "distinct (thisFrame (cancel cb s)) \<and> distinct (nextFrame (cancel cb s))"
  using assms by (simp_all add: schedule_def cancel_def setDelete_def Let_def setAdd_distinct distinct_removeAll)

text \<open>
  C4. A call of \<open>process\<close> made while the queue is being processed runs no callback and
  starts no pass: it only records the frame data and sets \<open>flushNextFrame\<close>. Whatever the
  callbacks do, a loop over the queue that returns has started no further pass and is
  still processing. When the callbacks of a pass made such a call (once or several
  times), \<open>process\<close> clears the flag after the pass and runs again at once, so that, if
  the callbacks of that second pass do not ask again, exactly two passes run: the queue
  of the first, then the queue scheduled during the first.
\<close>

theorem nested_process_deferred:
  assumes idle: "\<not> isProcessing s"
      and quiet: "\<forall>c \<in> set (nextFrame s). \<forall>a \<in> set (body c). quiet a"
      and nested: "c0 \<in> set (nextFrame s)" "ProcessStep fd0 \<in> set (body c0)"
      and second: "\<forall>c \<in> set (nextFrame (firstPass body fd s)). \<forall>a \<in> set (body c). plain a"
  shows "(\<forall>(t :: Step) m fd'. isProcessing t \<longrightarrow>
            process (Suc m) body fd' t = Some (t\<lparr> latestFrameData := fd', flushNextFrame := True \<rparr>))
       \<and> (\<forall>(t :: Step) t' any n i. isProcessing t \<longrightarrow> forEachThisFrame n any i t = Some t' \<longrightarrow>
            isProcessing t' \<and> passes t' = passes t)
       \<and> (\<exists>N. \<forall>n \<ge> N. \<exists>s'. process n body fd s = Some s'
            \<and> passes s' = passes s + 2
            \<and> map fst (invoked s') = map fst (invoked s) @ nextFrame s @ nextFrame (firstPass body fd s)
            \<and> \<not> isProcessing s' \<and> \<not> flushNextFrame s')"
proof -
  have part1: "\<forall>(t :: Step) m fd'. isProcessing t \<longrightarrow>
            process (Suc m) body fd' t = Some (t\<lparr> latestFrameData := fd', flushNextFrame := True \<rparr>)"
    using process_nested by blast
  have part2: "\<forall>(t :: Step) t' any n i. isProcessing t \<longrightarrow> forEachThisFrame n any i t = Some t' \<longrightarrow>
            isProcessing t' \<and> passes t' = passes t"
    using in_pass_invariant by blast
  let ?s1 = "firstPass body fd s"
  let ?s2 = "firstPass body fd ?s1"
  let ?N1 = "length (nextFrame s) + sum_list (map (\<lambda>c. length (body c)) (nextFrame s)) + 3"
  let ?N2 = "length (nextFrame ?s1) + sum_list (map (\<lambda>c. length (body c)) (nextFrame ?s1)) + 3"
  note f1 = firstPass_facts [OF quiet, of fd]
  have quiet2: "\<forall>c \<in> set (nextFrame ?s1). \<forall>a \<in> set (body c). quiet a"
    using second plain_quiet by blast
  note f2 = firstPass_facts [OF quiet2, of fd]
  have flush: "flushNextFrame (fold (callbackEffect body) (nextFrame s) (startPass fd s))"
    using nested by (rule pass_flush_set)
  have part3: "\<exists>N. \<forall>n \<ge> N. \<exists>s'. process n body fd s = Some s'
            \<and> passes s' = passes s + 2
            \<and> map fst (invoked s') = map fst (invoked s) @ nextFrame s @ nextFrame ?s1
            \<and> \<not> isProcessing s' \<and> \<not> flushNextFrame s'"
  proof (intro exI allI impI)
    fix n
    assume n: "?N1 + ?N2 + 4 \<le> n"
    then obtain m where nm: "n = Suc (Suc m)" and m1: "?N1 < Suc m" and m2: "?N2 < m"
      by (cases n; cases "n - 1") auto
    have step1: "process (Suc (Suc m)) body fd s = process (Suc m) body fd ?s1"
      using process_pass [OF idle quiet m1, of fd] flush by simp
    have step2: "process (Suc m) body fd ?s1 = Some ?s2"
      using f1(1) f1(2) second m2 by (rule process_single_pass)
    show "process n body fd s = Some ?s2
            \<and> passes ?s2 = passes s + 2
            \<and> map fst (invoked ?s2) = map fst (invoked s) @ nextFrame s @ nextFrame ?s1
            \<and> \<not> isProcessing ?s2 \<and> \<not> flushNextFrame ?s2"
      using step1 step2 f1 f2 nm by simp
  qed
  show ?thesis using part1 part2 part3 by blast
qed

text \<open>
  C9. Scheduling a callback a second time before the frame runs leaves the queue as the
  first call made it, and the pass that processes the queue invokes the callback once.
  The queue is a set (a list without repetitions, which \<open>schedule\<close> and \<open>cancel\<close> keep it),
  and the callbacks of the frame neither schedule into the running pass nor flush it.
\<close>

theorem schedule_twice_invoked_once:
  assumes idle: "\<not> isProcessing s" "\<not> flushNextFrame s"
      and dist: "distinct (nextFrame s)"
      and plain: "\<forall>c \<in> set (setAdd callback (nextFrame s)). \<forall>a \<in> set (body c). plain a"
  shows "nextFrame (schedule callback k2 i2 (schedule callback k1 i1 s))
           = nextFrame (schedule callback k1 i1 s)
       \<and> (\<exists>N. \<forall>n \<ge> N. \<exists>s'.
            process n body fd (schedule callback k2 i2 (schedule callback k1 i1 s)) = Some s'
            \<and> count_list (map fst (invoked s')) callback
                = count_list (map fst (invoked s)) callback + 1
            \<and> passes s' = passes s + 1)"
proof -
  let ?t = "schedule callback k2 i2 (schedule callback k1 i1 s)"
  let ?q = "setAdd callback (nextFrame s)"
  have q1: "nextFrame (schedule callback k1 i1 s) = ?q"
    using idle(1) by (simp add: schedule_def Let_def)
  have qt: "nextFrame ?t = ?q"
    using idle(1) by (simp add: schedule_def Let_def setAdd_def)
  have t: "\<not> isProcessing ?t" "\<not> flushNextFrame ?t" "invoked ?t = invoked s" "passes ?t = passes s"
    using idle by (simp_all add: schedule_def Let_def)
  have dq: "distinct ?q" and mem: "callback \<in> set ?q"
    using dist by (simp_all add: setAdd_def)
  have once: "count_list ?q callback = 1"
    using dq mem by (rule count_list_distinct_member)
  have plain_t: "\<forall>c \<in> set (nextFrame ?t). \<forall>a \<in> set (body c). plain a"
    using plain unfolding qt .
  have quiet_t: "\<forall>c \<in> set (nextFrame ?t). \<forall>a \<in> set (body c). quiet a"
    using plain_t plain_quiet by blast
  note f = firstPass_facts [OF quiet_t, of fd]
  let ?N = "length (nextFrame ?t) + sum_list (map (\<lambda>c. length (body c)) (nextFrame ?t)) + 3"
  have run: "\<exists>s'. process n body fd ?t = Some s'
            \<and> count_list (map fst (invoked s')) callback
                = count_list (map fst (invoked s)) callback + 1
            \<and> passes s' = passes s + 1" if "?N + 2 \<le> n" for n
  proof -
    from that obtain m where nm: "n = Suc m" and m: "?N < m" by (cases n) auto
    have "process (Suc m) body fd ?t = Some (firstPass body fd ?t)"
      using t(1) t(2) plain_t m by (rule process_single_pass)
    moreover have "count_list (map fst (invoked (firstPass body fd ?t))) callback
        = count_list (map fst (invoked s)) callback + 1"
      using f(4) t(3) qt once by simp
    moreover have "passes (firstPass body fd ?t) = passes s + 1"
      using f(3) t(4) by simp
    ultimately show ?thesis using nm by blast
  qed
  show ?thesis using q1 qt run by auto
qed

theorem nested_process_deferred_witness:
  "\<exists>N. \<forall>n \<ge> N. \<exists>s'. process n flushingBody frame16 (schedule 1 False False createRenderStep) = Some s'
      \<and> passes s' = 2 \<and> map fst (invoked s') = [1, 2]
      \<and> \<not> isProcessing s' \<and> \<not> flushNextFrame s'"
proof -
  let ?s = "schedule 1 False False createRenderStep"
  have q: "nextFrame ?s = [1]" and idle: "\<not> isProcessing ?s"
    and p: "passes ?s = 0" and i: "invoked ?s = []"
    by (simp_all add: schedule_def createRenderStep_def setAdd_def Let_def)
  have q2: "nextFrame (firstPass flushingBody frame16 ?s) = [2]"
    by (simp add: firstPass_def callbackEffect_def flushingBody_def schedule_def
        createRenderStep_def setAdd_def Let_def)
  have quiet: "\<forall>c \<in> set (nextFrame ?s). \<forall>a \<in> set (flushingBody c). quiet a"
    unfolding q by (simp add: flushingBody_def)
  have n1: "(1::nat) \<in> set (nextFrame ?s)" unfolding q by simp
  have n2: "ProcessStep frame16 \<in> set (flushingBody 1)" by (simp add: flushingBody_def)
  have second: "\<forall>c \<in> set (nextFrame (firstPass flushingBody frame16 ?s)). \<forall>a \<in> set (flushingBody c). plain a"
    unfolding q2 by (simp add: flushingBody_def)
  from nested_process_deferred [OF idle quiet n1 n2 second]
  show ?thesis unfolding q q2 p i by (simp add: numeral_2_eq_2)
qed

theorem schedule_twice_invoked_once_witness:
  "\<exists>N. \<forall>n \<ge> N. \<exists>s'.
      process n (\<lambda>c. []) frame16 (schedule 7 False False (schedule 7 True False createRenderStep)) = Some s'
      \<and> count_list (map fst (invoked s')) 7 = 1 \<and> passes s' = 1"
proof -
  have idle: "\<not> isProcessing createRenderStep" "\<not> flushNextFrame createRenderStep"
    and dist: "distinct (nextFrame createRenderStep)"
    by (simp_all add: createRenderStep_def)
  have plain: "\<forall>c \<in> set (setAdd (7::nat) (nextFrame createRenderStep)). \<forall>a \<in> set ((\<lambda>c. []) c). plain a"
    by simp
  have z: "invoked createRenderStep = []" "passes createRenderStep = 0"
    by (simp_all add: createRenderStep_def)
  from schedule_twice_invoked_once [OF idle dist plain, of False False True False frame16]
  show ?thesis unfolding z by simp
qed

section \<open>Properties of \<open>findSpring\<close>\<close>

lemma approximateRootLoop_funpow:
  "approximateRootLoop i envelope derivative result
     = (newtonUpdate envelope derivative ^^ (rootIterations - i)) result"
proof (induction i envelope derivative result rule: approximateRootLoop.induct)
  case (1 i envelope derivative result)
  show ?case
  proof (cases "i < rootIterations")
    case True
    then have "rootIterations - i = Suc (rootIterations - (i + 1))" by simp
    then have "(newtonUpdate envelope derivative ^^ (rootIterations - i)) result
        = (newtonUpdate envelope derivative ^^ (rootIterations - (i + 1)))
            (newtonUpdate envelope derivative result)"
      by (simp add: funpow_swap1)
    moreover have "approximateRootLoop i envelope derivative result
        = approximateRootLoop (i + 1) envelope derivative (newtonUpdate envelope derivative result)"
      using True by (subst approximateRootLoop.simps) (simp add: newtonUpdate_def)
    moreover have "approximateRootLoop (i + 1) envelope derivative (newtonUpdate envelope derivative result)
        = (newtonUpdate envelope derivative ^^ (rootIterations - (i + 1)))
            (newtonUpdate envelope derivative result)"
    proof -
      have nu: "newtonUpdate envelope derivative result = result - envelope result / derivative result"
        by (simp add: newtonUpdate_def)
      show ?thesis using "1.IH" [OF True] by (simp only: nu)
    qed
    ultimately show ?thesis by simp
  next
    case False
    then have "approximateRootLoop i envelope derivative result = result"
      by (subst approximateRootLoop.simps) simp
    with False show ?thesis by simp
  qed
qed

lemma findSpring_clamps:
  "springDuration (findSpring durationOpt bounceOpt velocityOpt massOpt)
     = secondsToMilliseconds (clamp minDuration maxDuration
         (millisecondsToSeconds (case durationOpt of None \<Rightarrow> 800 | Some d \<Rightarrow> d)))
   \<and> 10 \<le> springDuration (findSpring durationOpt bounceOpt velocityOpt massOpt)
   \<and> springDuration (findSpring durationOpt bounceOpt velocityOpt massOpt) \<le> 10000
   \<and> minDamping \<le> clamp minDamping maxDamping (1 - b) \<and> clamp minDamping maxDamping (1 - b) \<le> maxDamping
   \<and> (warnings (findSpring (Some d) bounceOpt velocityOpt massOpt) \<noteq> [] \<longleftrightarrow> d > 10000)"
  by (simp add: findSpring_def Let_def isNaN_def clamp_def minDuration_def maxDuration_def
      minDamping_def maxDamping_def secondsToMilliseconds_def millisecondsToSeconds_def
      split: option.split)

text \<open>
  C5. The clamps and the warning are as the claim says, but the loop counter of
  \<open>approximateRoot\<close> starts at 1 and stops below \<open>rootIterations = 12\<close>: the Newton update
  is applied eleven times, for every envelope, derivative and starting point, and so in
  every call of \<open>findSpring\<close>.
\<close>

theorem approximateRoot_eleven_updates:
  "approximateRoot envelope derivative initialGuess
     = (newtonUpdate envelope derivative ^^ 11) initialGuess
   \<and> stiffness (findSpring (Some 800) (Some 0.25) (Some 0) (Some 1))
     = ((newtonUpdate (springEnvelope 0.75 0.8 0) (springDerivative 0.75 0.8 0) ^^ 11) (5 / 0.8)) ^ 2 * 1
   \<and> approximateRoot (\<lambda>x. x) (\<lambda>x. 2) 4096 = 2
   \<and> (newtonUpdate (\<lambda>x. x) (\<lambda>x. 2) ^^ 12) 4096 = 1"
proof -
  have gen: "approximateRoot envelope derivative initialGuess
     = (newtonUpdate envelope derivative ^^ 11) initialGuess" for envelope derivative initialGuess
  proof -
    have "rootIterations - 1 = 11" by (simp add: rootIterations_def)
    then show ?thesis
      by (simp only: approximateRoot_def approximateRootLoop_funpow)
  qed
  have st: "stiffness (findSpring (Some 800) (Some 0.25) (Some 0) (Some 1))
     = ((newtonUpdate (springEnvelope 0.75 0.8 0) (springDerivative 0.75 0.8 0) ^^ 11) (5 / 0.8)) ^ 2 * 1"
    by (simp add: findSpring_def Let_def isNaN_def clamp_def minDuration_def maxDuration_def
        minDamping_def maxDamping_def secondsToMilliseconds_def millisecondsToSeconds_def gen
        del: funpow.simps)
  have a: "approximateRoot (\<lambda>x. x) (\<lambda>x. 2) 4096 = 2"
    unfolding gen by (simp add: newtonUpdate_def eval_nat_numeral)
  have b: "(newtonUpdate (\<lambda>x. x) (\<lambda>x. 2) ^^ 12) 4096 = 1"
    by (simp add: newtonUpdate_def eval_nat_numeral)
  show ?thesis using gen st a b by blast
qed

section \<open>Properties of \<open>MotionValue.set\<close>\<close>

lemma notifyLoop_all:
  "n = length subs \<Longrightarrow> i \<le> n \<Longrightarrow> notifyLoop i n subs a = map (\<lambda>h. (h, a)) (drop i subs)"
proof (induction i n subs a rule: notifyLoop.induct)
  case (1 i numSubscriptions subs a)
  show ?case
  proof (cases "i < numSubscriptions")
    case True
    with "1.prems" have d: "drop i subs = subs ! i # drop (i + 1) subs"
      by (simp add: Cons_nth_drop_Suc)
    from True "1.prems" "1.IH" show ?thesis
      by (subst notifyLoop.simps) (simp add: d)
  next
    case False
    with "1.prems" show ?thesis
      by (subst notifyLoop.simps) simp
  qed
qed

lemma notify_two_or_more:
  "2 \<le> length (subscriptions m) \<Longrightarrow> notify a m = Inr (map (\<lambda>h. (h, a)) (subscriptions m))"
  by (simp add: notify_def Let_def notifyLoop_all)

text \<open>
  C8. A motion value with exactly one \<open>change\<close> subscriber and no passive effect: \<open>set\<close>
  updates the current value, but the notification throws a \<open>TypeError\<close> and the
  subscriber is never called. With two subscribers both are called with the new value.
\<close>

theorem set_single_subscriber_throws:
  "set_value (Num 1) True 5 (on ''change'' 7 (motionValue (Num 0) 0))
     = (Some (TypeError ''cannot read property 0 of undefined (this.subscriptions)''),
        (on ''change'' 7 (motionValue (Num 0) 0))
          \<lparr> current := Num 1, prev := Num 0, prevFrameValue := Num 0,
            updatedAt := Some 5, prevUpdatedAt := Some 0 \<rparr>)
   \<and> notifications (snd (set_value (Num 1) True 5 (on ''change'' 7 (motionValue (Num 0) 0)))) = []
   \<and> fst (set_value (Num 1) True 5 (on ''change'' 8 (on ''change'' 7 (motionValue (Num 0) 0)))) = None
   \<and> notifications (snd (set_value (Num 1) True 5 (on ''change'' 8 (on ''change'' 7 (motionValue (Num 0) 0)))))
       = [(''change'', 7, Num 1), (''change'', 8, Num 1)]"
  by (simp add: set_value_def updateAndNotify_def notifyEvent_def notify_def on_def add_def
      motionValue_def setCurrent_def setPrevFrameValue_def newSubscriptionManager_def
      notifyLoop_all Let_def)

section \<open>Properties of \<open>KeyframeResolver\<close>\<close>

lemma readKeyframesLoop_step:
  "i < n \<Longrightarrow> ks ! i = Null \<Longrightarrow> 0 < i \<Longrightarrow>
     readKeyframesLoop i n now nm el mv ks
       = readKeyframesLoop (i + 1) n now nm el mv (ks[i := ks ! (i - 1)])"
  "i < n \<Longrightarrow> ks ! i \<noteq> Null \<Longrightarrow>
     readKeyframesLoop i n now nm el mv ks = readKeyframesLoop (i + 1) n now nm el mv ks"
  "\<not> i < n \<Longrightarrow> readKeyframesLoop i n now nm el mv ks = (None, ks, mv)"
  by (subst readKeyframesLoop.simps, simp)+

lemma readKeyframesLoop_first:
  "0 < n \<Longrightarrow> ks ! 0 = Null \<Longrightarrow>
     readKeyframesLoop 0 n now nm el mv ks
       = (case readFirstKeyframe now nm el mv ks of
            (Some e, ks', mv') \<Rightarrow> (Some e, ks', mv')
          | (None, ks', mv') \<Rightarrow> readKeyframesLoop (0 + 1) n now nm el mv' ks')"
  by (subst readKeyframesLoop.simps) simp

text \<open>
  C3. With no motion value and no element, a \<open>null\<close> first keyframe is left \<open>null\<close>: the
  fallback to the last keyframe is guarded by \<open>unresolvedKeyframes[0] === undefined\<close>, and
  the entry is \<open>null\<close>, not \<open>undefined\<close>. The later entries then copy that \<open>null\<close>.
\<close>

theorem readKeyframes_null_first_stays_null:
  "readKeyframes now (newKeyframeResolver [Null, Null, Num 10] None None None False)
     = (None, newKeyframeResolver [Null, Null, Num 10] None None None False)
   \<and> unresolvedKeyframes (snd (readKeyframes now (newKeyframeResolver [Null, Null, Num 10] None None None False)))
     \<noteq> [Num 10, Num 10, Num 10]"
proof -
  have first: "readFirstKeyframe now None None None [Null, Null, Num 10] = (None, [Null, Null, Num 10], None)"
    by (simp add: readFirstKeyframe_def Let_def)
  have "readKeyframesLoop 0 (length [Null, Null, Num 10]) now None None None [Null, Null, Num 10]
      = (None, [Null, Null, Num 10], None)"
    by (subst readKeyframesLoop.simps, simp add: first)+
  then show ?thesis
    by (simp add: readKeyframes_def newKeyframeResolver_def)
qed

lemma completeTimes_completions:
  "completions (completeTimes k r)
     = completions r @ replicate k (unresolvedKeyframes r, finalKeyframe r)
   \<and> unresolvedKeyframes (completeTimes k r) = unresolvedKeyframes r
   \<and> finalKeyframe (completeTimes k r) = finalKeyframe r
   \<and> (0 < k \<longrightarrow> isComplete (completeTimes k r))"
proof (induction k arbitrary: r)
  case 0
  then show ?case by simp
next
  case (Suc k)
  have c: "completions (snd (complete None r)) = completions r @ [(unresolvedKeyframes r, finalKeyframe r)]"
    "unresolvedKeyframes (snd (complete None r)) = unresolvedKeyframes r"
    "finalKeyframe (snd (complete None r)) = finalKeyframe r"
    "isComplete (snd (complete None r))"
    by (simp_all add: complete_def Let_def)
  have k: "isComplete (completeTimes k r')" if "isComplete r'" for r'
    using that by (induction k arbitrary: r') (simp_all add: complete_def Let_def)
  show ?case
    using Suc.IH [of "snd (complete None r)"] c k [OF c(4)]
    by (simp add: replicate_append_same)
qed

text \<open>
  C7, as the claim states it, fails: \<open>complete()\<close> has no guard, and two calls invoke the
  completion callback twice.
\<close>

theorem complete_twice_counterexample:
  "completions (completeTimes 2 (newKeyframeResolver [Num 0, Num 10] None None None False))
     = [([Num 0, Num 10], Undefined), ([Num 0, Num 10], Undefined)]"
  by (simp add: numeral_2_eq_2 complete_def newKeyframeResolver_def Let_def)

text \<open>
  C7, amended. Each call of \<open>complete()\<close> invokes the completion callback once, with the
  resolver's keyframes and final keyframe: \<open>k\<close> calls add \<open>k\<close> invocations. What
  \<open>isComplete\<close> guards is \<open>resume()\<close> and \<open>cancel()\<close>: after a \<open>complete()\<close> they change
  nothing, so no further resolution, and no further callback, comes from them.
\<close>

theorem complete_invokes_callback_each_call:
  "completions (completeTimes k r)
     = completions r @ replicate k (unresolvedKeyframes r, finalKeyframe r)
   \<and> resume now (completeTimes (Suc k) r) = (None, completeTimes (Suc k) r)
   \<and> resolverCancel (completeTimes (Suc k) r) = completeTimes (Suc k) r"
proof -
  have "isComplete (completeTimes (Suc k) r)"
    using completeTimes_completions [of "Suc k" r] by simp
  then show ?thesis
    using completeTimes_completions [of k r] by (simp add: resume_def resolverCancel_def)
qed

section \<open>Properties of the playback controller\<close>

lemma canAnimate_numbers:
  "a \<noteq> b \<Longrightarrow> canAnimate [Num a, Num b] None ty vel = Inr True"
  by (simp add: canAnimate_def isAnimatable_def elementAt_def hasKeyframesChanged_def Let_def)

lemma canAnimate_zIndex:
  "ks \<noteq> [] \<Longrightarrow> hd ks \<noteq> Null \<Longrightarrow> canAnimate ks (Some ''zIndex'') ty vel = Inr False"
  by (cases ks) (simp_all add: canAnimate_def isAnimatable_def elementAt_def Let_def)

lemma readKeyframes_no_null:
  "Null \<notin> set (unresolvedKeyframes r) \<Longrightarrow> readKeyframes now r = (None, r)"
proof -
  have loop: "Null \<notin> set ks \<Longrightarrow> n = length ks \<Longrightarrow>
      readKeyframesLoop i n now nm el mv ks = (None, ks, mv)" for i n nm el mv ks
  proof (induction i n now nm el mv ks rule: readKeyframesLoop.induct)
    case (1 i n now nm el mv ks)
    show ?case
    proof (cases "i < n")
      case True
      with "1.prems" have nn: "ks ! i \<noteq> Null" by (metis nth_mem)
      from True nn "1.IH"(3) "1.prems" show ?thesis
        by (subst readKeyframesLoop.simps) simp
    next
      case False
      then show ?thesis by (subst readKeyframesLoop.simps) simp
    qed
  qed
  assume "Null \<notin> set (unresolvedKeyframes r)"
  then show ?thesis by (simp add: readKeyframes_def loop)
qed

lemma numeric_constructor_throws:
  assumes "x \<noteq> y" "keyframesGiven given = [Num x, Num y]" "nameGiven given = None"
      "elementGiven given = None" "motionValueGiven given = None" "isGeneratorGiven given = False"
  shows "newMainThreadAnimation now given
      = (Some initPlaybackCall,
         \<lparr> options = withDefaults given, isStopped = False, resolved = None,
           hasAttemptedResolve = True,
           resolver = (newKeyframeResolver [Num x, Num y] None None None False)
                        \<lparr> isScheduled := True, isComplete := True,
                          completions := [([Num x, Num y], Undefined)] \<rparr>,
           createdAt = now, resolvedAt = Some now, driver = None, holdTime = None,
           cancelTime = None, currentTime = 0, playbackSpeed = 1,
           pendingPlayState = Running, startTime = None, playState = Idle,
           promises = [False], callbacks = [] \<rparr>)"
proof -
  let ?r = "(newKeyframeResolver [Num x, Num y] None None None False)\<lparr> isScheduled := True \<rparr>"
  have rk: "readKeyframes now ?r = (None, ?r)"
    by (rule readKeyframes_no_null) (simp add: newKeyframeResolver_def)
  have ca: "canAnimate [Num x, Num y] None ty vel = Inr True" for ty vel
    using assms(1) by (rule canAnimate_numbers)
  show ?thesis
    using rk ca assms(2-6)
    by (simp add: newMainThreadAnimation_def scheduleResolveOf_def completeResolver_def
        onKeyframesResolved_def withDefaults_def newKeyframeResolver_def Let_def)
qed

text \<open>
  C1. Constructing the controller of scenario A resolves the keyframes synchronously,
  finds them animatable and calls \<open>this.initPlayback\<close>, which does not exist: the
  constructor throws, and no tick yields 0, 50 or 100. On the object as the throw left it
  \<open>_resolved\<close> is unset, so a tick at any time reports the final keyframe as done.
\<close>

theorem scenarioA_constructor_throws:
  "fst (newMainThreadAnimation now scenarioA) = Some (TypeError ''this.initPlayback is not a function'')
   \<and> resolved (snd (newMainThreadAnimation now scenarioA)) = None
   \<and> playState (snd (newMainThreadAnimation now scenarioA)) = Idle
   \<and> fst (snd (tick t False now' (snd (newMainThreadAnimation now scenarioA))))
       = Some \<lparr> sampleDone = True, sampleValue = Num 100 \<rparr>"
proof -
  have c: "newMainThreadAnimation now scenarioA
      = (Some initPlaybackCall,
         \<lparr> options = withDefaults scenarioA, isStopped = False, resolved = None,
           hasAttemptedResolve = True,
           resolver = (newKeyframeResolver [Num 0, Num 100] None None None False)
                        \<lparr> isScheduled := True, isComplete := True,
                          completions := [([Num 0, Num 100], Undefined)] \<rparr>,
           createdAt = now, resolvedAt = Some now, driver = None, holdTime = None,
           cancelTime = None, currentTime = 0, playbackSpeed = 1,
           pendingPlayState = Running, startTime = None, playState = Idle,
           promises = [False], callbacks = [] \<rparr>)"
    by (rule numeric_constructor_throws) (simp_all add: scenarioA_def noOptions_def)
  show ?thesis
    unfolding c
    by (simp add: initPlaybackCall_def tick_def withDefaults_def scenarioA_def noOptions_def
        elementAt_def)
qed

text \<open>
  C2, as the claim states it, fails in a branch the code guards on purpose: \<open>stop()\<close> on
  a controller that is still idle (its keyframes wait for the next flush) cancels the
  resolver and returns before the teardown. Nothing is thrown, and the finished promise
  is not resolved; the resolver has left the pending set, so the flush of the next frame
  does not resolve it either.
\<close>

theorem stop_while_idle_counterexample:
  "fst (newMainThreadAnimation 0 deferredOptions) = None
   \<and> playState (snd (newMainThreadAnimation 0 deferredOptions)) = Idle
   \<and> inToResolve (resolver (snd (newMainThreadAnimation 0 deferredOptions)))
   \<and> fst (stop (snd (newMainThreadAnimation 0 deferredOptions))) = None
   \<and> \<not> finishedResolved (snd (stop (snd (newMainThreadAnimation 0 deferredOptions))))
   \<and> \<not> inToResolve (resolver (snd (stop (snd (newMainThreadAnimation 0 deferredOptions)))))
   \<and> fst (flushKeyframeResolvers 16
             (snd (stop (snd (newMainThreadAnimation 0 deferredOptions))))) = None
   \<and> \<not> finishedResolved (snd (flushKeyframeResolvers 16
             (snd (stop (snd (newMainThreadAnimation 0 deferredOptions))))))"
  by (simp add: newMainThreadAnimation_def scheduleResolveOf_def withDefaults_def
      deferredOptions_def deferringElement_def noOptions_def newKeyframeResolver_def
      stop_def resolverCancel_def flushKeyframeResolvers_def finishedResolved_def Let_def)

lemma lifecycle_slips:
  "fst (animationCancel now a) \<noteq> None"
  "fst (animationComplete now a) \<noteq> None"
  "playState a \<noteq> Idle \<Longrightarrow> fst (stop a) = Some teardownCall"
  "fst (finish a) = Some teardownCall"
  by (auto simp: animationCancel_def animationComplete_def stop_def finish_def Let_def
      split: option.splits prod.splits)

lemma string_keyframes_throw:
  "canAnimate [Str ''none'', Str ''block''] None Keyframes None
     = Inl (ReferenceError ''floatRegex is not defined'')"
  "isAnimatable (Str ''0'') None = Inr True"
  "isAnimatable (Str ''200'') None = Inr False"
  "fst (newMainThreadAnimation now stringOptions) = Some (ReferenceError ''floatRegex is not defined'')"
proof -
  have nan: "isNaNString ''none''"
    by (simp add: isNaNString_def trim_def isWhiteSpace_def nonDecimalIntegerLiteral_def
        unsignedDecimalLiteral_def dropSign_def isDigit_def digitsOnly_def Let_def)
  show ca: "canAnimate [Str ''none'', Str ''block''] None Keyframes None
     = Inl (ReferenceError ''floatRegex is not defined'')"
    using nan by (simp add: canAnimate_def isAnimatable_def complexTest_def elementAt_def Let_def)
  show "isAnimatable (Str ''0'') None = Inr True"
    by (simp add: isAnimatable_def complexTest_def isNaNString_def trim_def isWhiteSpace_def
        nonDecimalIntegerLiteral_def unsignedDecimalLiteral_def dropSign_def isDigit_def
        digitsOnly_def exponentOrEnd_def startsWith_def Let_def)
  show "isAnimatable (Str ''200'') None = Inr False"
    by (simp add: isAnimatable_def complexTest_def isNaNString_def trim_def isWhiteSpace_def
        nonDecimalIntegerLiteral_def unsignedDecimalLiteral_def dropSign_def isDigit_def
        digitsOnly_def exponentOrEnd_def startsWith_def Let_def)
  let ?r = "(newKeyframeResolver [Str ''none'', Str ''block''] None None None False)\<lparr> isScheduled := True \<rparr>"
  have rk: "readKeyframes now ?r = (None, ?r)"
    by (rule readKeyframes_no_null) (simp add: newKeyframeResolver_def)
  show "fst (newMainThreadAnimation now stringOptions) = Some (ReferenceError ''floatRegex is not defined'')"
    using rk ca
    by (simp add: newMainThreadAnimation_def scheduleResolveOf_def completeResolver_def
        onKeyframesResolved_def withDefaults_def stringOptions_def noOptions_def
        newKeyframeResolver_def Let_def)
qed

text \<open>
  C2, amended. \<open>stop()\<close> on an idle controller never throws: it cancels the resolver,
  marks the controller stopped and leaves the finished promises as they are. The
  unanimatable-keyframes skip path without a delay (the animatability test returns
  \<open>false\<close>) never throws either: it reports the final keyframe to \<open>onUpdate\<close>, calls
  \<open>onComplete\<close> and resolves the current finished promise.
\<close>

theorem stop_idle_and_skip_path:
  "(playState a = Idle \<longrightarrow>
      stop a = (None, a\<lparr> resolver := resolverCancel (resolver a), isStopped := True \<rparr>)
      \<and> promises (snd (stop a)) = promises a)
   \<and> (\<not> isGenerator (options a)
        \<and> canAnimate ks (name (options a)) (generatorType (options a)) (velocity (options a)) = Inr False
        \<and> delay (options a) = 0 \<and> promises a \<noteq> [] \<longrightarrow>
      fst (onKeyframesResolved ks final now a) = None
      \<and> last (promises (snd (onKeyframesResolved ks final now a)))
      \<and> length (promises (snd (onKeyframesResolved ks final now a))) = length (promises a)
      \<and> callbacks (snd (onKeyframesResolved ks final now a))
          = callbacks a
            @ (if onUpdate (options a)
               then [OnUpdate (getFinalKeyframe ks (repeat (options a)) (repeatType (options a)) final)]
               else [])
            @ (if onComplete (options a) then [OnComplete] else []))"
proof (intro conjI impI)
  assume "playState a = Idle"
  then show "stop a = (None, a\<lparr> resolver := resolverCancel (resolver a), isStopped := True \<rparr>)"
    by (simp add: stop_def Let_def)
  then show "promises (snd (stop a)) = promises a" by simp
next
  assume h: "\<not> isGenerator (options a)
        \<and> canAnimate ks (name (options a)) (generatorType (options a)) (velocity (options a)) = Inr False
        \<and> delay (options a) = 0 \<and> promises a \<noteq> []"
  let ?a2 = "invokeCallback (onUpdate (options a))
               (OnUpdate (getFinalKeyframe ks (repeat (options a)) (repeatType (options a)) final))
               (a\<lparr> resolvedAt := Some now, hasAttemptedResolve := True \<rparr>)"
  let ?a3 = "invokeCallback (onComplete (options a)) OnComplete ?a2"
  have r: "onKeyframesResolved ks final now a = (None, resolveFinishedPromise ?a3)"
    using h by (simp add: onKeyframesResolved_def Let_def invokeCallback_def)
  have p: "promises ?a3 = promises a" by (simp add: invokeCallback_def)
  have cb: "callbacks (resolveFinishedPromise ?a3)
          = callbacks a
            @ (if onUpdate (options a)
               then [OnUpdate (getFinalKeyframe ks (repeat (options a)) (repeatType (options a)) final)]
               else [])
            @ (if onComplete (options a) then [OnComplete] else [])"
    by (simp add: resolveFinishedPromise_def invokeCallback_def)
  have ne: "promises a \<noteq> []" using h by simp
  have lst: "last ((promises a)[length (promises a) - 1 := True])"
    using ne by (simp add: last_conv_nth)
  show "fst (onKeyframesResolved ks final now a) = None" using r by simp
  show "last (promises (snd (onKeyframesResolved ks final now a)))"
    using r p lst by (simp add: resolveFinishedPromise_def)
  show "length (promises (snd (onKeyframesResolved ks final now a))) = length (promises a)"
    using r p by (simp add: resolveFinishedPromise_def)
  show "callbacks (snd (onKeyframesResolved ks final now a))
          = callbacks a
            @ (if onUpdate (options a)
               then [OnUpdate (getFinalKeyframe ks (repeat (options a)) (repeatType (options a)) final)]
               else [])
            @ (if onComplete (options a) then [OnComplete] else [])"
    using r cb by simp
qed

theorem stop_idle_and_skip_path_witness:
  "stop (snd (newMainThreadAnimation 0 deferredUnanimatable))
     = (None, (snd (newMainThreadAnimation 0 deferredUnanimatable))
                \<lparr> resolver := resolverCancel (resolver (snd (newMainThreadAnimation 0 deferredUnanimatable))),
                  isStopped := True \<rparr>)
   \<and> fst (onKeyframesResolved [Num 0, Num 100] Undefined 16
            (snd (newMainThreadAnimation 0 deferredUnanimatable))) = None
   \<and> finishedResolved (snd (onKeyframesResolved [Num 0, Num 100] Undefined 16
            (snd (newMainThreadAnimation 0 deferredUnanimatable))))
   \<and> callbacks (snd (onKeyframesResolved [Num 0, Num 100] Undefined 16
            (snd (newMainThreadAnimation 0 deferredUnanimatable))))
       = [OnUpdate (Num 100), OnComplete]
   \<and> fst (newMainThreadAnimation 0 unanimatableOptions) = None
   \<and> finishedResolved (snd (newMainThreadAnimation 0 unanimatableOptions))
   \<and> fst (flushKeyframeResolvers 16 (snd (newMainThreadAnimation 0 deferredUnanimatable))) = None
   \<and> finishedResolved (snd (flushKeyframeResolvers 16 (snd (newMainThreadAnimation 0 deferredUnanimatable))))"
proof -
  let ?a = "snd (newMainThreadAnimation 0 deferredUnanimatable)"
  let ?ks = "[Num 0, Num 100]"
  let ?ra = "(newKeyframeResolver ?ks (Some ''zIndex'') None (Some deferringElement) True)
                        \<lparr> isScheduled := True, inToResolve := True, flushScheduled := True \<rparr>"
  have a: "?a = \<lparr> options = withDefaults deferredUnanimatable, isStopped = False, resolved = None,
           hasAttemptedResolve = False, resolver = ?ra,
           createdAt = 0, resolvedAt = None, driver = None, holdTime = None,
           cancelTime = None, currentTime = 0, playbackSpeed = 1,
           pendingPlayState = Running, startTime = None, playState = Idle,
           promises = [False], callbacks = [] \<rparr>"
    by (simp add: newMainThreadAnimation_def scheduleResolveOf_def withDefaults_def
        deferredUnanimatable_def unanimatableOptions_def deferringElement_def noOptions_def
        newKeyframeResolver_def Let_def)
  have idle: "playState ?a = Idle" unfolding a by simp
  have nca: "canAnimate ?ks (Some ''zIndex'') ty None = Inr False" for ty
    by (rule canAnimate_zIndex) simp_all
  have skip: "\<not> isGenerator (options ?a)
        \<and> canAnimate ?ks (name (options ?a)) (generatorType (options ?a)) (velocity (options ?a)) = Inr False
        \<and> delay (options ?a) = 0 \<and> promises ?a \<noteq> []"
    unfolding a using nca
    by (simp add: withDefaults_def deferredUnanimatable_def unanimatableOptions_def noOptions_def)
  have opts: "onUpdate (options ?a)" "onComplete (options ?a)" "callbacks ?a = []"
    "promises ?a = [False]" "repeat (options ?a) = 0"
    unfolding a
    by (simp_all add: withDefaults_def deferredUnanimatable_def unanimatableOptions_def noOptions_def)
  have fk: "getFinalKeyframe ?ks 0 rt Undefined = Num 100" for rt
    by (simp add: getFinalKeyframe_def elementAt_def Let_def)
  note inst = stop_idle_and_skip_path [of ?a ?ks Undefined 16]
  from inst idle have s: "stop ?a = (None, ?a\<lparr> resolver := resolverCancel (resolver ?a), isStopped := True \<rparr>)"
    by blast
  from inst skip have k: "fst (onKeyframesResolved ?ks Undefined 16 ?a) = None"
      "last (promises (snd (onKeyframesResolved ?ks Undefined 16 ?a)))"
      "length (promises (snd (onKeyframesResolved ?ks Undefined 16 ?a))) = length (promises ?a)"
      "callbacks (snd (onKeyframesResolved ?ks Undefined 16 ?a))
          = callbacks ?a
            @ (if onUpdate (options ?a)
               then [OnUpdate (getFinalKeyframe ?ks (repeat (options ?a)) (repeatType (options ?a)) Undefined)]
               else [])
            @ (if onComplete (options ?a) then [OnComplete] else [])"
    by blast+
  have fr: "finishedResolved (snd (onKeyframesResolved ?ks Undefined 16 ?a))"
  proof -
    from k(3) opts(4) obtain p where p: "promises (snd (onKeyframesResolved ?ks Undefined 16 ?a)) = [p]"
      by (cases "promises (snd (onKeyframesResolved ?ks Undefined 16 ?a))") auto
    with k(2) show ?thesis by (simp add: finishedResolved_def)
  qed
  have cb: "callbacks (snd (onKeyframesResolved ?ks Undefined 16 ?a)) = [OnUpdate (Num 100), OnComplete]"
    using k(4) opts fk by simp
  let ?r = "(newKeyframeResolver ?ks (Some ''zIndex'') None None False)\<lparr> isScheduled := True \<rparr>"
  have rk: "readKeyframes 0 ?r = (None, ?r)"
    by (rule readKeyframes_no_null) (simp add: newKeyframeResolver_def)
  have sync: "fst (newMainThreadAnimation 0 unanimatableOptions) = None
      \<and> finishedResolved (snd (newMainThreadAnimation 0 unanimatableOptions))"
    using rk nca
    by (simp add: newMainThreadAnimation_def scheduleResolveOf_def completeResolver_def
        onKeyframesResolved_def withDefaults_def unanimatableOptions_def noOptions_def
        newKeyframeResolver_def resolveFinishedPromise_def invokeCallback_def finishedResolved_def
        instantAnimationState_def Let_def)
  have rk2: "readKeyframes 16 ?ra = (None, ?ra)"
    by (rule readKeyframes_no_null) (simp add: newKeyframeResolver_def)
  have flush: "fst (flushKeyframeResolvers 16 ?a) = None
      \<and> finishedResolved (snd (flushKeyframeResolvers 16 ?a))"
    unfolding a using rk2 nca
    by (simp add: flushKeyframeResolvers_def completeResolver_def
        onKeyframesResolved_def withDefaults_def deferredUnanimatable_def unanimatableOptions_def
        noOptions_def newKeyframeResolver_def resolveFinishedPromise_def invokeCallback_def
        finishedResolved_def instantAnimationState_def Let_def)
  show ?thesis using s k(1) fr cb sync flush by blast
qed

subsection \<open>The repeat block of \<open>tick\<close>\<close>

lemma remainderOne_frac:
  "0 \<le> x \<Longrightarrow> remainderOne x = frac x"
  by (simp add: remainderOne_def frac_def)

lemma odd_mod: "(i mod 2 \<noteq> 0) = odd i" for i :: int
  by (simp add: even_iff_mod_2_eq_zero)

lemma repeatBlock_reverse:
  assumes "0 \<le> progress" "progress = min curTime totalDur / resolvedDur"
  shows "currentIteration (repeatBlock curTime totalDur resolvedDur rep Reverse repDelay)
           = min (\<lfloor>progress\<rfloor> - (if progress \<ge> 1 \<and> frac progress = 0 then 1 else 0)) (int rep + 1)"
    and "elapsed (repeatBlock curTime totalDur resolvedDur rep Reverse repDelay)
           = clamp 0 1 (if odd (currentIteration (repeatBlock curTime totalDur resolvedDur rep Reverse repDelay))
                         then 1 - (if progress \<ge> 1 \<and> frac progress = 0 then 1 else frac progress)
                              - (if repDelay \<noteq> 0 then repDelay / resolvedDur else 0)
                         else (if progress \<ge> 1 \<and> frac progress = 0 then 1 else frac progress)) * resolvedDur"
proof -
  have rem: "remainderOne progress = frac progress"
    using assms(1) by (rule remainderOne_frac)
  have f1: "frac progress \<noteq> 1"
    using frac_lt_1 [of progress] by simp
  show it: "currentIteration (repeatBlock curTime totalDur resolvedDur rep Reverse repDelay)
           = min (\<lfloor>progress\<rfloor> - (if progress \<ge> 1 \<and> frac progress = 0 then 1 else 0)) (int rep + 1)"
    unfolding repeatBlock_def Let_def rem assms(2) [symmetric]
    using f1 by simp
  show "elapsed (repeatBlock curTime totalDur resolvedDur rep Reverse repDelay)
           = clamp 0 1 (if odd (currentIteration (repeatBlock curTime totalDur resolvedDur rep Reverse repDelay))
                         then 1 - (if progress \<ge> 1 \<and> frac progress = 0 then 1 else frac progress)
                              - (if repDelay \<noteq> 0 then repDelay / resolvedDur else 0)
                         else (if progress \<ge> 1 \<and> frac progress = 0 then 1 else frac progress)) * resolvedDur"
    unfolding repeatBlock_def Let_def rem assms(2) [symmetric] odd_mod
    using f1 by simp
qed

lemma repeatBlock_scenarioC:
  "repeatBlock 150 300 100 2 Reverse 0
     = \<lparr> currentIteration = 1, useMirroredGenerator = False, elapsed = 50 \<rparr>"
  "currentIteration (repeatBlock 100 300 100 2 Reverse 0) = 0"
  by (simp_all add: repeatBlock_def remainderOne_def clamp_def Let_def)

lemma onKeyframesResolved_resolved:
  "resolved (snd (onKeyframesResolved ks final now a)) = resolved a"
  by (simp add: onKeyframesResolved_def Let_def invokeCallback_def resolveFinishedPromise_def
      split: sum.splits)

lemma completeResolver_resolved:
  "resolved (snd (completeResolver now a)) = resolved a"
proof -
  let ?r = "resolver a"
  let ?a1 = "a\<lparr> resolver := ?r\<lparr> isComplete := True,
                  completions := completions ?r @ [(unresolvedKeyframes ?r, finalKeyframe ?r)] \<rparr> \<rparr>"
  have "resolved (snd (onKeyframesResolved (unresolvedKeyframes ?r) (finalKeyframe ?r) now ?a1)) = resolved a"
    by (simp add: onKeyframesResolved_resolved)
  then show ?thesis
    by (cases "onKeyframesResolved (unresolvedKeyframes ?r) (finalKeyframe ?r) now ?a1")
       (auto simp: completeResolver_def Let_def split: option.splits)
qed

lemma scheduleResolveOf_resolved:
  "resolved (snd (scheduleResolveOf now a)) = resolved a"
proof (cases "isAsync (resolver a)")
  case True
  then show ?thesis by (simp add: scheduleResolveOf_def Let_def)
next
  case False
  obtain e r2 where rk: "readKeyframes now ((resolver a)\<lparr> isScheduled := True \<rparr>) = (e, r2)"
    by (cases "readKeyframes now ((resolver a)\<lparr> isScheduled := True \<rparr>)")
  show ?thesis
  proof (cases e)
    case None
    with False rk show ?thesis
      using completeResolver_resolved [of now "a\<lparr> resolver := r2 \<rparr>"]
      by (simp add: scheduleResolveOf_def Let_def)
  next
    case (Some err)
    with False rk show ?thesis by (simp add: scheduleResolveOf_def Let_def)
  qed
qed

lemma flushKeyframeResolvers_resolved:
  "resolved (snd (flushKeyframeResolvers now a)) = resolved a"
proof (cases "inToResolve (resolver a)")
  case False
  then show ?thesis by (simp add: flushKeyframeResolvers_def)
next
  case True
  obtain e r1 where rk: "readKeyframes now (resolver a) = (e, r1)"
    by (cases "readKeyframes now (resolver a)")
  show ?thesis
  proof (cases e)
    case (Some err)
    with True rk show ?thesis by (simp add: flushKeyframeResolvers_def)
  next
    case None
    let ?a1 = "a\<lparr> resolver := r1\<lparr> flushScheduled := False \<rparr> \<rparr>"
    have "resolved (snd (completeResolver now ?a1)) = resolved a"
      using completeResolver_resolved [of now ?a1] by simp
    with True rk None show ?thesis
      by (cases "completeResolver now ?a1")
         (auto simp: flushKeyframeResolvers_def split: option.splits)
  qed
qed

lemma constructor_never_resolves:
  "resolved (snd (newMainThreadAnimation now given)) = None"
  unfolding newMainThreadAnimation_def Let_def
  by (simp add: scheduleResolveOf_resolved)

lemma tick_unresolved:
  assumes "resolved a = None"
  shows "fst (tick ts sample now a) \<noteq> None
       \<or> (resolved (snd (snd (tick ts sample now a))) = None
          \<and> (\<exists>v. fst (snd (tick ts sample now a)) = Some \<lparr> sampleDone = True, sampleValue = v \<rparr>))"
proof -
  let ?f = "(if resolved a = None \<and> \<not> hasAttemptedResolve a then flushKeyframeResolvers now a else (None, a))"
  obtain e a0 where f: "?f = (e, a0)" by (cases ?f)
  have r0: "resolved a0 = None"
    using f assms flushKeyframeResolvers_resolved [of now a]
    by (auto split: if_splits)
  show ?thesis
  proof (cases e)
    case (Some err)
    with f show ?thesis by (simp add: tick_def)
  next
    case None
    with f r0 show ?thesis by (simp add: tick_def)
  qed
qed

text \<open>
  C6. Constructing the controller of scenario C throws as in C1, before \<open>_resolved\<close> is
  assigned; no constructor call, whatever its options, leaves resolved data. So \<open>tick\<close>
  never reaches its repeat block: 150 ms after the start it reports the final keyframe
  100 as done, where the block as written would hand the generator the reversed local
  time 50.
\<close>

theorem scenarioC_constructor_throws:
  "fst (newMainThreadAnimation now scenarioC) = Some (TypeError ''this.initPlayback is not a function'')
   \<and> resolved (snd (newMainThreadAnimation now scenarioC)) = None
   \<and> fst (tick (now + 150) False now' (snd (newMainThreadAnimation now scenarioC))) = None
   \<and> fst (snd (tick (now + 150) False now' (snd (newMainThreadAnimation now scenarioC))))
       = Some \<lparr> sampleDone = True, sampleValue = Num 100 \<rparr>
   \<and> resolved (snd (newMainThreadAnimation now given)) = None
   \<and> elapsed (repeatBlock 150 300 100 2 Reverse 0) = 50"
proof -
  have c: "newMainThreadAnimation now scenarioC
      = (Some initPlaybackCall,
         \<lparr> options = withDefaults scenarioC, isStopped = False, resolved = None,
           hasAttemptedResolve = True,
           resolver = (newKeyframeResolver [Num 0, Num 100] None None None False)
                        \<lparr> isScheduled := True, isComplete := True,
                          completions := [([Num 0, Num 100], Undefined)] \<rparr>,
           createdAt = now, resolvedAt = Some now, driver = None, holdTime = None,
           cancelTime = None, currentTime = 0, playbackSpeed = 1,
           pendingPlayState = Running, startTime = None, playState = Idle,
           promises = [False], callbacks = [] \<rparr>)"
    by (rule numeric_constructor_throws) (simp_all add: scenarioC_def noOptions_def)
  have t: "tick (now + 150) False now' (snd (newMainThreadAnimation now scenarioC))
      = (None, Some \<lparr> sampleDone = True, sampleValue = Num 100 \<rparr>,
         snd (newMainThreadAnimation now scenarioC))"
    unfolding c
    by (simp add: tick_def withDefaults_def scenarioC_def noOptions_def elementAt_def)
  have e: "elapsed (repeatBlock 150 300 100 2 Reverse 0) = 50"
    by (simp add: repeatBlock_scenarioC)
  show ?thesis
    using c t e constructor_never_resolves [of now given]
    by (simp add: initPlaybackCall_def)
qed

end
